theory Spec2Isabelle
  imports Complex_Main "HOL-Library.Multiset"
begin

section \<open>Data model of the simulation builder\<close>

text \<open>
  The builder of \<^verbatim>\<open>openfisca_core/simulation_builder.py\<close> turns a situation document into
  index-aligned arrays. Situation documents are JSON values. A Python \<^verbatim>\<open>dict\<close> that is
  iterated is an association list in insertion order (its keys are strings, as JSON
  object keys are); the dictionaries of the builder that are only looked up are maps.
  Text is Python 3 \<^verbatim>\<open>str\<close>; JSON floats are exact rationals.
\<close>

datatype json =
    JNull
  | JBool bool
  | JInt int
  | JFloat rat
  | JStr string
  | JList "json list"
  | JDict "(string \<times> json) list"

type_synonym jdict = "(string \<times> json) list"

text \<open>\<^verbatim>\<open>d.get(k)\<close>, \<^verbatim>\<open>d[k] = v\<close> and the removal of a key on an insertion-ordered
  dictionary: an existing key keeps its place, a new key goes last.\<close>

fun dict_get :: "('k \<times> 'a) list \<Rightarrow> 'k \<Rightarrow> 'a option" where
  "dict_get [] k = None"
| "dict_get ((k', v) # d) k = (if k' = k then Some v else dict_get d k)"

fun dict_set :: "('k \<times> 'a) list \<Rightarrow> 'k \<Rightarrow> 'a \<Rightarrow> ('k \<times> 'a) list" where
  "dict_set [] k v = [(k, v)]"
| "dict_set ((k', v') # d) k v = (if k' = k then (k, v) # d else (k', v') # dict_set d k v)"

definition dict_pop :: "('k \<times> 'a) list \<Rightarrow> 'k \<Rightarrow> ('k \<times> 'a) list" where
  "dict_pop d k = filter (\<lambda>kv. fst kv \<noteq> k) d"

text \<open>\<^verbatim>\<open>xs.index(x)\<close>: the first position of \<open>x\<close>, or no position (Python raises
  \<^verbatim>\<open>ValueError\<close>).\<close>

fun list_index :: "'a list \<Rightarrow> 'a \<Rightarrow> nat option" where
  "list_index [] x = None"
| "list_index (y # ys) x = (if y = x then Some 0 else map_option Suc (list_index ys x))"

subsection \<open>Decimal text of integers\<close>

text \<open>The decimal digits; \<open>digit_char\<close> is applied to numbers below ten only.\<close>

definition digit_char :: "nat \<Rightarrow> char" where
  "digit_char d = ''0123456789'' ! d"

definition is_digit :: "char \<Rightarrow> bool" where
  "is_digit c = (c \<in> set ''0123456789'')"

definition digit_val :: "char \<Rightarrow> nat" where
  "digit_val c = (case list_index ''0123456789'' c of None \<Rightarrow> 0 | Some d \<Rightarrow> d)"

text \<open>\<^verbatim>\<open>str(n)\<close> for a non-negative integer.\<close>

fun str_nat :: "nat \<Rightarrow> string" where
  "str_nat n = (if n < 10 then [digit_char n] else str_nat (n div 10) @ [digit_char (n mod 10)])"

declare str_nat.simps [simp del]

definition str_int :: "int \<Rightarrow> string" where
  "str_int i = (if i < 0 then CHR ''-'' # str_nat (nat (- i)) else str_nat (nat i))"

definition digits_value :: "string \<Rightarrow> nat" where
  "digits_value s = foldl (\<lambda>a c. 10 * a + digit_val c) 0 s"

subsection \<open>Entity kinds and roles\<close>

text \<open>A role of a group kind: \<^verbatim>\<open>role.key\<close>, \<^verbatim>\<open>role.plural\<close> (may be \<^verbatim>\<open>None\<close>),
  \<^verbatim>\<open>role.max\<close> and \<^verbatim>\<open>role.subroles\<close> (themselves roles).\<close>

datatype role = Role (role_key: string) (role_plural: "string option")
  (role_max: "nat option") (subroles: "role list")

text \<open>\<^verbatim>\<open>role.plural or role.key\<close>: \<^verbatim>\<open>None\<close> and the empty string are falsy.\<close>

definition role_name :: "role \<Rightarrow> string" where
  "role_name r = (case role_plural r of None \<Rightarrow> role_key r
                  | Some p \<Rightarrow> if p = [] then role_key r else p)"

record entity =
  key :: string
  plural :: string
  entity_roles :: "role list"

text \<open>The tax and benefit system is the list of its entity kinds.
  \<^verbatim>\<open>entities_plural()\<close> lists their plural names, \<^verbatim>\<open>entities_by_singular()\<close> is the
  dictionary from \<^verbatim>\<open>entity.key\<close> to the entity (a later entity of the same key wins).\<close>

definition entities_plural :: "entity list \<Rightarrow> string list" where
  "entities_plural tbs = map plural tbs"

definition entities_by_singular :: "entity list \<Rightarrow> string \<Rightarrow> entity option" where
  "entities_by_singular tbs k = find (\<lambda>e. key e = k) (rev tbs)"

subsection \<open>Errors\<close>

text \<open>The message of a \<^verbatim>\<open>SituationParsingError\<close> is kept as its template and the values
  formatted into it.\<close>

datatype message =
    InvalidType string
  | NotDeclared string string string string
  | DeclaredTwice string string
  | Unallocated "string set" string string
  | ExpectedObject
  | ExternalMessage string

datatype error =
    SituationParsingError "string list" message "nat option"
  | IndexError
  | KeyError
  | ValueError
  | AttributeError
  | PeriodMismatchError

section \<open>Situation normalizer\<close>

text \<open>
  \<^verbatim>\<open>explicit_singular_entities\<close> (lines 161-187). \<^verbatim>\<open>singular_keys\<close> is a Python set; it is
  iterated here in the order of the document's keys (Python's order is unspecified, and
  matters only if two kinds share a plural name).
\<close>

definition singular_keys :: "entity list \<Rightarrow> jdict \<Rightarrow> (string \<times> json) list" where
  "singular_keys tbs input_dict =
     filter (\<lambda>(k, v). entities_by_singular tbs k \<noteq> None) input_dict"

definition rekey_singular :: "entity list \<Rightarrow> jdict \<Rightarrow> string \<times> json \<Rightarrow> jdict" where
  "rekey_singular tbs result sv =
     (case entities_by_singular tbs (fst sv) of
        None \<Rightarrow> result
      | Some e \<Rightarrow> dict_set result (plural e) (JDict [(fst sv, snd sv)]))"

definition explicit_singular_entities :: "entity list \<Rightarrow> jdict \<Rightarrow> jdict" where
  "explicit_singular_entities tbs input_dict =
     (if singular_keys tbs input_dict = [] then input_dict
      else foldl (rekey_singular tbs)
             (filter (\<lambda>(entity_id, entity_description). entity_id \<in> set (entities_plural tbs))
                input_dict)
             (singular_keys tbs input_dict))"


section \<open>Builder state and external collaborators\<close>

text \<open>Sequencing of computations that may raise.\<close>

definition ebind :: "error + 'a \<Rightarrow> ('a \<Rightarrow> error + 'b) \<Rightarrow> error + 'b" where
  "ebind m f = (case m of Inl e \<Rightarrow> Inl e | Inr x \<Rightarrow> f x)"

text \<open>
  An axis descriptor \<^verbatim>\<open>{name, count, min, max, period, index}\<close> with a non-negative
  integer count; \<^verbatim>\<open>period\<close> may be \<^verbatim>\<open>None\<close> and \<^verbatim>\<open>index\<close> may be absent.
\<close>

record axis =
  ax_name :: string
  ax_count :: nat
  ax_min :: rat
  ax_max :: rat
  ax_period :: "string option"
  ax_index :: "int option"

text \<open>A period key of the input buffer: a string, or Python's \<^verbatim>\<open>None\<close> when an axis has no
  period and no default period is configured.\<close>

type_synonym pkey = "string option"

type_synonym 'v buffer = "(string \<times> (pkey \<times> 'v list) list) list"

text \<open>The fields of \<^verbatim>\<open>SimulationBuilder.__init__\<close>. A membership slot that
  \<^verbatim>\<open>np.empty\<close> left unwritten holds \<open>None\<close>.\<close>

record 'v builder =
  default_period :: "string option"
  input_buffer :: "'v buffer"
  entity_counts :: "string \<rightharpoonup> nat"
  entity_ids :: "string \<rightharpoonup> string list"
  memberships :: "string \<rightharpoonup> nat option list"
  roles :: "string \<rightharpoonup> role option list"
  variable_entities :: "string \<rightharpoonup> entity"
  axes :: "axis list list"
  axes_entity_counts :: "string \<rightharpoonup> nat"
  axes_entity_ids :: "string \<rightharpoonup> string list"
  axes_memberships :: "string \<rightharpoonup> nat option list"
  axes_roles :: "string \<rightharpoonup> role option list"

text \<open>The builder that \<^verbatim>\<open>__init__\<close> makes (lines 16-31): the axes are one empty group.\<close>

definition new_builder :: "'v builder" where
  "new_builder =
     \<lparr>default_period = None, input_buffer = [],
      entity_counts = Map.empty, entity_ids = Map.empty,
      memberships = Map.empty, roles = Map.empty,
      variable_entities = Map.empty,
      axes = [[]],
      axes_entity_counts = Map.empty, axes_entity_ids = Map.empty,
      axes_memberships = Map.empty, axes_roles = Map.empty\<rparr>"

text \<open>A value that numpy computes in floating point: a finite number (kept exact) or
  \<^verbatim>\<open>nan\<close>.\<close>

datatype npfloat = Fin rat | NaN

datatype var_status = Defined | WrongEntity string | VariableNotFound string

text \<open>
  The collaborators outside this file, as parameters: the variable registry
  (\<^verbatim>\<open>check_variable_defined_for_entity\<close>, \<^verbatim>\<open>get_variable\<close>, \<^verbatim>\<open>default_array\<close>,
  \<^verbatim>\<open>check_set_value\<close>, and the cast \<open>store_float\<close> of a float into the array type of a
  variable), the period library
  (\<^verbatim>\<open>make_period\<close>, \<^verbatim>\<open>str\<close> of a period, \<^verbatim>\<open>key_period_size\<close>) and the holders
  (\<^verbatim>\<open>get_holder\<close> resolves or raises \<^verbatim>\<open>ValueError\<close>; \<^verbatim>\<open>set_input\<close>, given the commits made
  so far, accepts or raises \<^verbatim>\<open>PeriodMismatchError\<close>). A variable is identified by its name;
  \<^verbatim>\<open>get_variable\<close> of an entity kind returns the variable of a name, or \<^verbatim>\<open>None\<close> when the
  name is no variable of the system, and an attribute read from \<^verbatim>\<open>None\<close> raises
  \<^verbatim>\<open>AttributeError\<close>.
\<close>

record ('v, 'p, 'k) registry =
  check_variable_defined_for_entity :: "entity \<Rightarrow> string \<Rightarrow> var_status"
  get_variable :: "entity \<Rightarrow> string \<Rightarrow> string option"
  default_array :: "string \<Rightarrow> nat \<Rightarrow> 'v list"
  check_set_value :: "string \<Rightarrow> json \<Rightarrow> string + 'v"
  store_float :: "string \<Rightarrow> npfloat \<Rightarrow> 'v"
  make_period :: "pkey \<Rightarrow> string + 'p"
  str_period :: "'p \<Rightarrow> string"
  key_period_size :: "'p \<Rightarrow> 'k"
  get_holder :: "entity \<Rightarrow> string \<Rightarrow> bool"
  set_input :: "(string \<times> 'p \<times> 'v list) list \<Rightarrow> string \<Rightarrow> 'p \<Rightarrow> 'v list \<Rightarrow> bool"

subsection \<open>Accessors (lines 261-264, 365-377)\<close>

text \<open>The default of \<^verbatim>\<open>dict.get\<close> is evaluated first: \<^verbatim>\<open>get_count\<close> and \<^verbatim>\<open>get_ids\<close> raise
  \<^verbatim>\<open>KeyError\<close> for a kind that has no recorded population.\<close>

definition get_count :: "'v builder \<Rightarrow> string \<Rightarrow> error + nat" where
  "get_count b entity_name =
     (case entity_counts b entity_name of
        None \<Rightarrow> Inl KeyError
      | Some c \<Rightarrow> Inr (case axes_entity_counts b entity_name of Some c' \<Rightarrow> c' | None \<Rightarrow> c))"

definition get_ids :: "'v builder \<Rightarrow> string \<Rightarrow> error + string list" where
  "get_ids b entity_name =
     (case entity_ids b entity_name of
        None \<Rightarrow> Inl KeyError
      | Some i \<Rightarrow> Inr (case axes_entity_ids b entity_name of Some i' \<Rightarrow> i' | None \<Rightarrow> i))"

definition get_memberships :: "'v builder \<Rightarrow> string \<Rightarrow> nat option list" where
  "get_memberships b entity_name =
     (case axes_memberships b entity_name of
        Some m \<Rightarrow> m
      | None \<Rightarrow> (case memberships b entity_name of Some m \<Rightarrow> m | None \<Rightarrow> []))"

definition get_roles :: "'v builder \<Rightarrow> string \<Rightarrow> role option list" where
  "get_roles b entity_name =
     (case axes_roles b entity_name of
        Some r \<Rightarrow> r
      | None \<Rightarrow> (case roles b entity_name of Some r \<Rightarrow> r | None \<Rightarrow> []))"

text \<open>\<^verbatim>\<open>get_input\<close> creates the entry of the variable when it is missing, and returns the
  buffered array of the period, if any.\<close>

definition get_input :: "'v builder \<Rightarrow> string \<Rightarrow> pkey \<Rightarrow> 'v list option \<times> 'v builder" where
  "get_input b variable period =
     (case dict_get (input_buffer b) variable of
        None \<Rightarrow> (None, b\<lparr>input_buffer := dict_set (input_buffer b) variable []\<rparr>)
      | Some d \<Rightarrow> (dict_get d period, b))"

text \<open>\<^verbatim>\<open>self.input_buffer[variable][period] = array\<close>.\<close>

definition set_buffer :: "'v builder \<Rightarrow> string \<Rightarrow> pkey \<Rightarrow> 'v list \<Rightarrow> error + 'v builder" where
  "set_buffer b variable period array =
     (case dict_get (input_buffer b) variable of
        None \<Rightarrow> Inl KeyError
      | Some d \<Rightarrow> Inr (b\<lparr>input_buffer :=
                         dict_set (input_buffer b) variable (dict_set d period array)\<rparr>))"

section \<open>Variable ingestion (lines 282-327)\<close>

definition add_variable_value ::
  "('v, 'p, 'k) registry \<Rightarrow> entity \<Rightarrow> string \<Rightarrow> nat \<Rightarrow> string \<Rightarrow> string \<Rightarrow> json
     \<Rightarrow> 'v builder \<Rightarrow> error + 'v builder" where
  "add_variable_value reg ent variable instance_index instance_id period_str val b =
     (if val = JNull then Inr b
      else
        (case get_input b variable (Some period_str) of (array_opt, b1) \<Rightarrow>
           ebind (case array_opt of
                    Some array \<Rightarrow> Inr array
                  | None \<Rightarrow> ebind (get_count b1 (plural ent))
                             (\<lambda>array_size. Inr (default_array reg variable array_size)))
             (\<lambda>array.
                (case check_set_value reg variable val of
                   Inl msg \<Rightarrow>
                     Inl (SituationParsingError
                            [plural ent, instance_id, variable, period_str]
                            (ExternalMessage msg) None)
                 | Inr v \<Rightarrow>
                     if instance_index < length array
                     then set_buffer b1 variable (Some period_str) (array[instance_index := v])
                     else Inl IndexError))))"

fun add_period_values ::
  "('v, 'p, 'k) registry \<Rightarrow> entity \<Rightarrow> string \<Rightarrow> nat \<Rightarrow> string \<Rightarrow> (string \<times> json) list
     \<Rightarrow> 'v builder \<Rightarrow> error + 'v builder" where
  "add_period_values reg ent variable instance_index instance_id [] b = Inr b"
| "add_period_values reg ent variable instance_index instance_id ((period, val) # rest) b =
     (case make_period reg (Some period) of
        Inl msg \<Rightarrow>
          Inl (SituationParsingError [plural ent, instance_id, variable] (ExternalMessage msg) None)
      | Inr p \<Rightarrow>
          (case get_variable reg ent variable of
             None \<Rightarrow> Inl AttributeError
           | Some v \<Rightarrow>
               ebind (add_variable_value reg ent v instance_index instance_id period val b)
                 (add_period_values reg ent variable instance_index instance_id rest)))"

fun init_variable_values ::
  "('v, 'p, 'k) registry \<Rightarrow> entity \<Rightarrow> jdict \<Rightarrow> string \<Rightarrow> 'v builder \<Rightarrow> error + 'v builder" where
  "init_variable_values reg ent [] instance_id b = Inr b"
| "init_variable_values reg ent ((variable_name, variable_values) # rest) instance_id b =
     (case check_variable_defined_for_entity reg ent variable_name of
        WrongEntity msg \<Rightarrow>
          Inl (SituationParsingError [plural ent, instance_id, variable_name]
                 (ExternalMessage msg) None)
      | VariableNotFound msg \<Rightarrow>
          Inl (SituationParsingError [plural ent, instance_id, variable_name]
                 (ExternalMessage msg) (Some 404))
      | Defined \<Rightarrow>
          ebind (get_ids b (plural ent)) (\<lambda>ids.
          (case list_index ids instance_id of
             None \<Rightarrow> Inl ValueError
           | Some instance_index \<Rightarrow>
               ebind (case variable_values of
                        JDict d \<Rightarrow> Inr d
                      | _ \<Rightarrow> (case default_period b of
                                None \<Rightarrow> Inl (SituationParsingError
                                               [plural ent, instance_id, variable_name]
                                               ExpectedObject None)
                              | Some dp \<Rightarrow> Inr [(dp, variable_values)]))
                 (\<lambda>periods.
                    ebind (add_period_values reg ent variable_name instance_index instance_id
                             periods b)
                      (init_variable_values reg ent rest instance_id)))))"

section \<open>Population builder (lines 205-280, 479-516)\<close>

text \<open>\<^verbatim>\<open>check_type\<close> for the three types it is called with.\<close>

definition check_type_dict :: "json \<Rightarrow> string list \<Rightarrow> error + jdict" where
  "check_type_dict input path =
     (case input of JDict d \<Rightarrow> Inr d
      | _ \<Rightarrow> Inl (SituationParsingError path (InvalidType ''Object'') None))"

definition check_type_list :: "json \<Rightarrow> string list \<Rightarrow> error + json list" where
  "check_type_list input path =
     (case input of JList xs \<Rightarrow> Inr xs
      | _ \<Rightarrow> Inl (SituationParsingError path (InvalidType ''Array'') None))"

definition check_type_string :: "json \<Rightarrow> string list \<Rightarrow> error + string" where
  "check_type_string input path =
     (case input of JStr s \<Rightarrow> Inr s
      | _ \<Rightarrow> Inl (SituationParsingError path (InvalidType ''String'') None))"

text \<open>\<^verbatim>\<open>transform_to_strict_syntax\<close>: a bare string or integer becomes a one-element list;
  integers in a list become their text. A Python \<^verbatim>\<open>bool\<close> is an \<^verbatim>\<open>int\<close>.\<close>

definition strict_item :: "json \<Rightarrow> json" where
  "strict_item item =
     (case item of
        JInt i \<Rightarrow> JStr (str_int i)
      | JBool t \<Rightarrow> JStr (if t then ''True'' else ''False'')
      | _ \<Rightarrow> item)"

definition transform_to_strict_syntax :: "json \<Rightarrow> json" where
  "transform_to_strict_syntax data =
     (case data of
        JStr s \<Rightarrow> JList [JStr s]
      | JInt i \<Rightarrow> JList [strict_item (JInt i)]
      | JBool t \<Rightarrow> JList [strict_item (JBool t)]
      | JList xs \<Rightarrow> JList (map strict_item xs)
      | _ \<Rightarrow> data)"

text \<open>The dictionary comprehension that builds \<^verbatim>\<open>roles_json\<close>, popping each role's field
  from \<^verbatim>\<open>variables_json\<close> (default \<^verbatim>\<open>[]\<close>). It returns both dictionaries.\<close>

fun split_roles :: "role list \<Rightarrow> jdict \<Rightarrow> jdict \<Rightarrow> jdict \<times> jdict" where
  "split_roles [] variables_json roles_json = (variables_json, roles_json)"
| "split_roles (r # rs) variables_json roles_json =
     split_roles rs (dict_pop variables_json (role_name r))
       (dict_set roles_json (role_name r)
          (transform_to_strict_syntax
             (case dict_get variables_json (role_name r) of None \<Rightarrow> JList [] | Some d \<Rightarrow> d)))"

text \<open>\<^verbatim>\<open>check_persons_to_allocate\<close>; on success the checked id is returned as a string.\<close>

definition check_persons_to_allocate ::
  "string \<Rightarrow> string \<Rightarrow> string list \<Rightarrow> json \<Rightarrow> string \<Rightarrow> string \<Rightarrow> string set \<Rightarrow> nat
     \<Rightarrow> error + string" where
  "check_persons_to_allocate persons_plural entity_plural persons_ids person_id entity_id role_id
       persons_to_allocate index =
     ebind (check_type_string person_id [entity_plural, entity_id, role_id, str_nat index])
       (\<lambda>p. if p \<notin> set persons_ids
             then Inl (SituationParsingError [entity_plural, entity_id, role_id]
                         (NotDeclared p entity_id role_id persons_plural) None)
             else if p \<notin> persons_to_allocate
             then Inl (SituationParsingError [entity_plural, entity_id, role_id]
                         (DeclaredTwice p entity_plural) None)
             else Inr p)"

text \<open>The loop over \<^verbatim>\<open>enumerate(role_definition)\<close>: check, then discard from the working
  set.\<close>

fun allocate_role ::
  "string \<Rightarrow> string \<Rightarrow> string list \<Rightarrow> string \<Rightarrow> string \<Rightarrow> json list \<Rightarrow> nat \<Rightarrow> string set
     \<Rightarrow> error + string set" where
  "allocate_role pp ep persons_ids instance_id role_id [] index to_allocate = Inr to_allocate"
| "allocate_role pp ep persons_ids instance_id role_id (person_id # rest) index to_allocate =
     ebind (check_persons_to_allocate pp ep persons_ids person_id instance_id role_id
              to_allocate index)
       (\<lambda>p. allocate_role pp ep persons_ids instance_id role_id rest (Suc index)
               (to_allocate - {p}))"

text \<open>The loop over \<^verbatim>\<open>roles_json.items()\<close>.\<close>

fun allocate_roles ::
  "string \<Rightarrow> string \<Rightarrow> string list \<Rightarrow> string \<Rightarrow> jdict \<Rightarrow> string set \<Rightarrow> error + string set" where
  "allocate_roles pp ep persons_ids instance_id [] to_allocate = Inr to_allocate"
| "allocate_roles pp ep persons_ids instance_id ((role_id, role_definition) # rest) to_allocate =
     ebind (check_type_list role_definition [ep, instance_id, role_id])
       (\<lambda>persons.
          ebind (allocate_role pp ep persons_ids instance_id role_id persons 0 to_allocate)
            (allocate_roles pp ep persons_ids instance_id rest))"

text \<open>Python truthiness of a JSON value.\<close>

definition truthy :: "json \<Rightarrow> bool" where
  "truthy v =
     (case v of JNull \<Rightarrow> False | JBool t \<Rightarrow> t | JInt i \<Rightarrow> i \<noteq> 0 | JFloat q \<Rightarrow> q \<noteq> 0
      | JStr s \<Rightarrow> s \<noteq> [] | JList xs \<Rightarrow> xs \<noteq> [] | JDict d \<Rightarrow> d \<noteq> [])"

text \<open>
  \<^verbatim>\<open>iter_over_entity_members\<close>. The generator is consumed to its end by its only caller, so
  it is the list of the pairs it yields, or the \<^verbatim>\<open>IndexError\<close> of
  \<^verbatim>\<open>role.subroles[legacy_role_j]\<close> when a role lists more persons than it has subroles.
  The counter \<^verbatim>\<open>legacy_role_i\<close> is never read.
\<close>

fun role_members :: "role \<Rightarrow> json list \<Rightarrow> nat \<Rightarrow> error + (role \<times> json) list" where
  "role_members r [] legacy_role_j = Inr []"
| "role_members r (individu # rest) legacy_role_j =
     (if subroles r \<noteq> []
      then (if legacy_role_j < length (subroles r)
            then ebind (role_members r rest (Suc legacy_role_j))
                   (\<lambda>ms. Inr ((subroles r ! legacy_role_j, individu) # ms))
            else Inl IndexError)
      else ebind (role_members r rest (Suc legacy_role_j)) (\<lambda>ms. Inr ((r, individu) # ms)))"

fun iter_roles :: "role list \<Rightarrow> jdict \<Rightarrow> error + (role \<times> json) list" where
  "iter_roles [] scenario_entity = Inr []"
| "iter_roles (r # rs) scenario_entity =
     (case dict_get scenario_entity (role_name r) of
        None \<Rightarrow> iter_roles rs scenario_entity
      | Some individus \<Rightarrow>
          if truthy individus
          then ebind (role_members r (case individus of JList xs \<Rightarrow> xs | _ \<Rightarrow> [individus]) 0)
                 (\<lambda>ms. ebind (iter_roles rs scenario_entity) (\<lambda>ms'. Inr (ms @ ms')))
          else iter_roles rs scenario_entity)"

definition iter_over_entity_members :: "entity \<Rightarrow> jdict \<Rightarrow> error + (role \<times> json) list" where
  "iter_over_entity_members entity_description scenario_entity =
     iter_roles (entity_roles entity_description) scenario_entity"

text \<open>The loop that writes the membership and role arrays at the person's position.\<close>

fun assign_members ::
  "string list \<Rightarrow> nat \<Rightarrow> (role \<times> json) list \<Rightarrow> nat option list \<times> role option list
     \<Rightarrow> error + nat option list \<times> role option list" where
  "assign_members persons_ids entity_index [] arrays = Inr arrays"
| "assign_members persons_ids entity_index ((person_role, person_id) # rest) arrays =
     (case list_index (map JStr persons_ids) person_id of
        None \<Rightarrow> Inl ValueError
      | Some person_index \<Rightarrow>
          assign_members persons_ids entity_index rest
            ((fst arrays)[person_index := Some entity_index],
             (snd arrays)[person_index := Some person_role]))"

text \<open>The state of the loop over the instances: the builder, the two arrays under
  construction and the working set of unallocated person ids.\<close>

type_synonym 'v group_state =
  "'v builder \<times> (nat option list \<times> role option list) \<times> string set"

definition add_group_instance ::
  "('v, 'p, 'k) registry \<Rightarrow> string \<Rightarrow> string list \<Rightarrow> entity \<Rightarrow> string list
     \<Rightarrow> string \<times> json \<Rightarrow> 'v group_state \<Rightarrow> error + 'v group_state" where
  "add_group_instance reg persons_plural persons_ids ent ids inst st =
     (case st of (b, arrays, to_allocate) \<Rightarrow>
        ebind (check_type_dict (snd inst) [plural ent, fst inst])
          (\<lambda>instance_object.
             (case split_roles (entity_roles ent) instance_object [] of
                (variables_json, roles_json) \<Rightarrow>
                  ebind (allocate_roles persons_plural (plural ent) persons_ids (fst inst)
                           roles_json to_allocate)
                    (\<lambda>to_allocate'.
                       (case list_index ids (fst inst) of
                          None \<Rightarrow> Inl ValueError
                        | Some entity_index \<Rightarrow>
                            ebind (iter_over_entity_members ent roles_json)
                              (\<lambda>members.
                                 ebind (assign_members persons_ids entity_index members arrays)
                                   (\<lambda>arrays'.
                                      ebind (init_variable_values reg ent variables_json
                                               (fst inst) b)
                                        (\<lambda>b'. Inr (b', arrays', to_allocate')))))))))"

fun add_group_instances ::
  "('v, 'p, 'k) registry \<Rightarrow> string \<Rightarrow> string list \<Rightarrow> entity \<Rightarrow> string list
     \<Rightarrow> jdict \<Rightarrow> 'v group_state \<Rightarrow> error + 'v group_state" where
  "add_group_instances reg persons_plural persons_ids ent ids [] st = Inr st"
| "add_group_instances reg persons_plural persons_ids ent ids (inst # rest) st =
     ebind (add_group_instance reg persons_plural persons_ids ent ids inst st)
       (add_group_instances reg persons_plural persons_ids ent ids rest)"

text \<open>The state before the loop: ids and count recorded, empty arrays of the person
  count, every person still to allocate.\<close>

definition init_group_state ::
  "string list \<Rightarrow> entity \<Rightarrow> jdict \<Rightarrow> 'v builder \<Rightarrow> 'v group_state" where
  "init_group_state persons_ids ent instances b =
     (b\<lparr>entity_ids := (entity_ids b)(plural ent \<mapsto> map fst instances),
        entity_counts := (entity_counts b)(plural ent \<mapsto> length instances)\<rparr>,
      (replicate (length persons_ids) None, replicate (length persons_ids) None),
      set persons_ids)"

text \<open>
  \<^verbatim>\<open>add_group_entity\<close>. The arrays are stored in the builder when the loop is over, as the
  source converts them back to lists there; a raise inside the loop loses the state.
\<close>

definition add_group_entity ::
  "('v, 'p, 'k) registry \<Rightarrow> string \<Rightarrow> string list \<Rightarrow> entity \<Rightarrow> json \<Rightarrow> 'v builder
     \<Rightarrow> error + 'v builder" where
  "add_group_entity reg persons_plural persons_ids ent instances_json b =
     ebind (check_type_dict instances_json [plural ent])
       (\<lambda>instances.
          ebind (add_group_instances reg persons_plural persons_ids ent (map fst instances)
                   instances (init_group_state persons_ids ent instances b))
            (\<lambda>(b', arrays, to_allocate).
               if to_allocate \<noteq> {}
               then Inl (SituationParsingError [plural ent]
                           (Unallocated to_allocate persons_plural (key ent)) None)
               else Inr (b'\<lparr>memberships := (memberships b')(plural ent \<mapsto> fst arrays),
                            roles := (roles b')(plural ent \<mapsto> snd arrays)\<rparr>)))"

section \<open>Finalizer (lines 329-349)\<close>

text \<open>The attributes that \<^verbatim>\<open>finalize_variables_init\<close> stamps onto the entity of the
  simulation; \<open>None\<close> is an attribute not set yet.\<close>

record sim_entity =
  se_count :: "nat option"
  se_ids :: "string list option"
  members_entity_id :: "nat option list option"
  members_role :: "role option list option"

text \<open>The calls of \<^verbatim>\<open>holder.set_input\<close>, in the order they are made: variable, period,
  array.\<close>

type_synonym ('p, 'v) commits = "(string \<times> 'p \<times> 'v list) list"

fun parse_periods :: "('v, 'p, 'k) registry \<Rightarrow> pkey list \<Rightarrow> error + 'p list" where
  "parse_periods reg [] = Inr []"
| "parse_periods reg (period_str # rest) =
     (case make_period reg period_str of
        Inl msg \<Rightarrow> Inl ValueError
      | Inr p \<Rightarrow> ebind (parse_periods reg rest) (\<lambda>ps. Inr (p # ps)))"

text \<open>The loop over \<^verbatim>\<open>sorted_periods\<close>. It returns the calls made and the exception that
  ended it, if any.\<close>

fun commit_periods ::
  "('v, 'p, 'k) registry \<Rightarrow> string \<Rightarrow> (pkey \<times> 'v list) list \<Rightarrow> 'p list \<Rightarrow> ('p, 'v) commits
     \<Rightarrow> ('p, 'v) commits \<times> error option" where
  "commit_periods reg variable_name buffer [] calls = (calls, None)"
| "commit_periods reg variable_name buffer (period # rest) calls =
     (case dict_get buffer (Some (str_period reg period)) of
        None \<Rightarrow> (calls, Some KeyError)
      | Some array \<Rightarrow>
          if set_input reg calls variable_name period array
          then (calls @ [(variable_name, period, array)], Some PeriodMismatchError)
          else commit_periods reg variable_name buffer rest
                 (calls @ [(variable_name, period, array)]))"

text \<open>The loop over the variables of the input buffer; \<^verbatim>\<open>sorted\<close> is a stable sort.\<close>

fun finalize_variables ::
  "('v, 'p, 'k :: linorder) registry \<Rightarrow> entity \<Rightarrow> 'v buffer \<Rightarrow> ('p, 'v) commits
     \<Rightarrow> ('p, 'v) commits \<times> error option" where
  "finalize_variables reg ent [] calls = (calls, None)"
| "finalize_variables reg ent ((variable_name, buffer) # rest) calls =
     (if \<not> get_holder reg ent variable_name then finalize_variables reg ent rest calls
      else (case parse_periods reg (map fst buffer) of
              Inl e \<Rightarrow> (calls, Some e)
            | Inr periods \<Rightarrow>
                (case commit_periods reg variable_name buffer
                        (sort_key (key_period_size reg) periods) calls of
                   (calls', Some e) \<Rightarrow> (calls', Some e)
                 | (calls', None) \<Rightarrow> finalize_variables reg ent rest calls')))"

definition finalize_variables_init ::
  "('v, 'p, 'k :: linorder) registry \<Rightarrow> 'v builder \<Rightarrow> entity \<Rightarrow> sim_entity
     \<Rightarrow> sim_entity \<times> ('p, 'v) commits \<times> error option" where
  "finalize_variables_init reg b ent sim =
     (case (if plural ent \<in> dom (entity_counts b)
            then ebind (get_count b (plural ent)) (\<lambda>c.
                 ebind (get_ids b (plural ent)) (\<lambda>i.
                   Inr (sim\<lparr>se_count := Some c, se_ids := Some i\<rparr>)))
            else Inr sim) of
        Inl e \<Rightarrow> (sim, [], Some e)
      | Inr sim1 \<Rightarrow>
          (let sim2 = (if plural ent \<in> dom (memberships b)
                       then sim1\<lparr>members_entity_id := Some (get_memberships b (plural ent)),
                                 members_role := Some (get_roles b (plural ent))\<rparr>
                       else sim1)
           in (case finalize_variables reg ent (input_buffer b) [] of
                 (calls, err) \<Rightarrow> (sim2, calls, err))))"

section \<open>Axis expansion engine (lines 379-470)\<close>

definition add_parallel_axis :: "'v builder \<Rightarrow> axis \<Rightarrow> error + 'v builder" where
  "add_parallel_axis b a =
     (case axes b of
        [] \<Rightarrow> Inl IndexError
      | parallel_axes # rest \<Rightarrow> Inr (b\<lparr>axes := (parallel_axes @ [a]) # rest\<rparr>))"

definition add_perpendicular_axis :: "'v builder \<Rightarrow> axis \<Rightarrow> 'v builder" where
  "add_perpendicular_axis b a = b\<lparr>axes := axes b @ [[a]]\<rparr>"

subsection \<open>numpy operations\<close>

text \<open>\<^verbatim>\<open>np.linspace(start, stop, num)\<close> in exact arithmetic; one point gives
  \<^verbatim>\<open>[start]\<close>.\<close>

definition linspace :: "rat \<Rightarrow> rat \<Rightarrow> nat \<Rightarrow> rat list" where
  "linspace start stop num =
     map (\<lambda>i. start + of_nat i * ((stop - start) / of_nat (num - 1))) [0..<num]"

text \<open>
  \<^verbatim>\<open>np.meshgrid(*xs)\<close> with its default \<^verbatim>\<open>'xy'\<close> indexing, each grid flattened in row-major
  order as \<^verbatim>\<open>mesh.reshape(steps_count)\<close> does: the grids have the shape of the lengths
  with the first two swapped, and grid \<open>d\<close> varies along dimension \<open>d\<close> of the input
  (along dimension 1 for the first, 0 for the second).
\<close>

definition meshgrid_shape :: "nat list \<Rightarrow> nat list" where
  "meshgrid_shape ns = (case ns of n1 # n2 # rest \<Rightarrow> n2 # n1 # rest | _ \<Rightarrow> ns)"

definition meshgrid_axis :: "nat \<Rightarrow> nat \<Rightarrow> nat" where
  "meshgrid_axis k d = (if 2 \<le> k \<and> d = 0 then 1 else if 2 \<le> k \<and> d = 1 then 0 else d)"

definition mesh_flat :: "rat list list \<Rightarrow> nat \<Rightarrow> rat list" where
  "mesh_flat xs d =
     (let shape = meshgrid_shape (map length xs); a = meshgrid_axis (length xs) d
      in map (\<lambda>f. (xs ! d) ! ((f div prod_list (drop (Suc a) shape)) mod (shape ! a)))
           [0..<prod_list shape])"

definition meshgrid :: "rat list list \<Rightarrow> rat list list" where
  "meshgrid xs = map (mesh_flat xs) [0..<length xs]"

text \<open>
  \<^verbatim>\<open>array[index::step] = values\<close>. The slice starts at \<open>index\<close> (counted from the end when
  negative, clipped to the array) and selects every \<open>step\<close>-th position; numpy raises
  \<^verbatim>\<open>ValueError\<close> for a zero step and when \<open>values\<close> has neither the length of the slice
  nor length one (one value is broadcast).
\<close>

definition slice_start :: "int \<Rightarrow> nat \<Rightarrow> nat" where
  "slice_start index n = (if index < 0 then nat (max 0 (int n + index)) else min (nat index) n)"

definition in_slice :: "nat \<Rightarrow> nat \<Rightarrow> nat \<Rightarrow> bool" where
  "in_slice start step i = (start \<le> i \<and> (i - start) mod step = 0)"

definition slice_assign :: "'v list \<Rightarrow> int \<Rightarrow> nat \<Rightarrow> 'v list \<Rightarrow> error + 'v list" where
  "slice_assign array index step vals =
     (let start = slice_start index (length array);
          slots = length (filter (in_slice start step) [0..<length array])
      in if step = 0 then Inl ValueError
         else if length vals = slots
         then Inr (map (\<lambda>i. if in_slice start step i then vals ! ((i - start) div step)
                             else array ! i) [0..<length array])
         else if length vals = 1
         then Inr (map (\<lambda>i. if in_slice start step i then vals ! 0 else array ! i)
                     [0..<length array])
         else Inl ValueError)"

subsection \<open>\<^verbatim>\<open>expand_axes\<close>\<close>

text \<open>\<^verbatim>\<open>[id + str(ix) for id, ix in zip(ids * axis_entity_count, indices)]\<close>.\<close>

definition adjust_ids :: "string list \<Rightarrow> nat \<Rightarrow> string list" where
  "adjust_ids ids axis_entity_count =
     map (\<lambda>(id, ix). id @ str_nat ix)
       (zip (concat (replicate axis_entity_count ids)) [0..<axis_entity_count])"

text \<open>\<^verbatim>\<open>np.array(memberships * axis_count) + np.repeat(np.arange(0, axis_count),
  len(memberships)) * axis_entity_step_size\<close>.\<close>

definition adjust_memberships :: "nat option list \<Rightarrow> nat \<Rightarrow> nat \<Rightarrow> nat option list" where
  "adjust_memberships original_memberships axis_count axis_entity_step_size =
     concat (map (\<lambda>k. map (map_option (\<lambda>m. m + k * axis_entity_step_size))
                        original_memberships) [0..<axis_count])"

text \<open>\<^verbatim>\<open>axis['period'] or self.default_period\<close> and \<^verbatim>\<open>axis.get('index', 0)\<close>.\<close>

definition axis_period :: "'v builder \<Rightarrow> axis \<Rightarrow> pkey" where
  "axis_period b a =
     (case ax_period a of
        None \<Rightarrow> default_period b
      | Some p \<Rightarrow> if p = [] then default_period b else Some p)"

definition axis_index :: "axis \<Rightarrow> int" where
  "axis_index a = (case ax_index a of None \<Rightarrow> 0 | Some i \<Rightarrow> i)"

text \<open>The body of the loop \<^verbatim>\<open>for axis in parallel_axes\<close>, the same in both branches but for
  the values written.\<close>

definition write_axis ::
  "('v, 'p, 'k) registry \<Rightarrow> entity \<Rightarrow> nat \<Rightarrow> nat \<Rightarrow> (axis \<Rightarrow> npfloat list) \<Rightarrow> axis
     \<Rightarrow> 'v builder \<Rightarrow> error + 'v builder" where
  "write_axis reg axis_entity axis_entity_count axis_entity_step_size vals a b =
     (let variable = get_variable reg axis_entity (ax_name a)
      in (case get_input b (ax_name a) (axis_period b a) of (array_opt, b1) \<Rightarrow>
            ebind (case array_opt of
                     None \<Rightarrow>
                       (case variable of
                          None \<Rightarrow> Inl AttributeError
                        | Some v \<Rightarrow> Inr (default_array reg v axis_entity_count))
                   | Some array \<Rightarrow> Inr array)
              (\<lambda>array.
                 ebind (slice_assign array (axis_index a) axis_entity_step_size
                          (map (store_float reg (ax_name a)) (vals a)))
                   (set_buffer b1 (ax_name a) (axis_period b a)))))"

fun write_axes ::
  "('v, 'p, 'k) registry \<Rightarrow> entity \<Rightarrow> nat \<Rightarrow> nat \<Rightarrow> (axis \<Rightarrow> npfloat list) \<Rightarrow> axis list
     \<Rightarrow> 'v builder \<Rightarrow> error + 'v builder" where
  "write_axes reg axis_entity axis_entity_count axis_entity_step_size vals [] b = Inr b"
| "write_axes reg axis_entity axis_entity_count axis_entity_step_size vals (a # rest) b =
     ebind (write_axis reg axis_entity axis_entity_count axis_entity_step_size vals a b)
       (write_axes reg axis_entity axis_entity_count axis_entity_step_size vals rest)"

text \<open>The single-group branch (lines 392-428).\<close>

definition expand_parallel ::
  "('v, 'p, 'k) registry \<Rightarrow> axis list \<Rightarrow> 'v builder \<Rightarrow> error + 'v builder" where
  "expand_parallel reg parallel_axes b =
     (case parallel_axes of
        [] \<Rightarrow> Inl IndexError
      | first_axis # _ \<Rightarrow>
          (case variable_entities b (ax_name first_axis) of
             None \<Rightarrow> Inl KeyError
           | Some axis_entity \<Rightarrow>
               ebind (get_count b (plural axis_entity)) (\<lambda>axis_entity_step_size.
                 (let axis_count = ax_count first_axis;
                      axis_entity_count = axis_count * axis_entity_step_size;
                      b1 = b\<lparr>axes_entity_counts :=
                               (axes_entity_counts b)(plural axis_entity \<mapsto> axis_entity_count)\<rparr>
                  in ebind (get_ids b1 (plural axis_entity)) (\<lambda>ids.
                       (let b2 = b1\<lparr>axes_entity_ids :=
                                      (axes_entity_ids b1)(plural axis_entity \<mapsto>
                                         adjust_ids ids axis_entity_count)\<rparr>;
                            b3 = b2\<lparr>axes_roles :=
                                      (axes_roles b2)(plural axis_entity \<mapsto>
                                         concat (replicate axis_count
                                                   (get_roles b2 (plural axis_entity))))\<rparr>;
                            original_memberships = get_memberships b3 (plural axis_entity);
                            b4 = (if original_memberships \<noteq> []
                                  then b3\<lparr>axes_memberships :=
                                            (axes_memberships b3)(plural axis_entity \<mapsto>
                                               adjust_memberships original_memberships axis_count
                                                 axis_entity_step_size)\<rparr>
                                  else b3)
                        in write_axes reg axis_entity axis_entity_count axis_entity_step_size
                             (\<lambda>a. map Fin (linspace (ax_min a) (ax_max a) axis_count))
                             parallel_axes b4))))))"

text \<open>The multiple-groups branch (lines 430-470). \<^verbatim>\<open>parallel_axes[0]\<close> raises
  \<^verbatim>\<open>IndexError\<close> on an empty group.\<close>

fun first_axes :: "axis list list \<Rightarrow> error + axis list" where
  "first_axes [] = Inr []"
| "first_axes (parallel_axes # rest) =
     (case parallel_axes of
        [] \<Rightarrow> Inl IndexError
      | first_axis # _ \<Rightarrow> ebind (first_axes rest) (\<lambda>fs. Inr (first_axis # fs)))"

fun axes_sizes ::
  "'v builder \<Rightarrow> axis list list \<Rightarrow> nat \<times> (string \<rightharpoonup> nat) \<Rightarrow> error + nat \<times> (string \<rightharpoonup> nat)" where
  "axes_sizes b [] acc = Inr acc"
| "axes_sizes b (parallel_axes # rest) acc =
     (case parallel_axes of
        [] \<Rightarrow> Inl IndexError
      | first_axis # _ \<Rightarrow>
          (case variable_entities b (ax_name first_axis) of
             None \<Rightarrow> Inl KeyError
           | Some axis_entity \<Rightarrow>
               ebind (get_count b (plural axis_entity)) (\<lambda>c.
                 axes_sizes b rest
                   (fst acc * ax_count first_axis, (snd acc)(plural axis_entity \<mapsto> c)))))"

text \<open>\<^verbatim>\<open>min + mesh * (max - min) / (axis_count - 1)\<close>: with one step the grid coordinate is
  zero and numpy divides zero by zero, which gives \<^verbatim>\<open>nan\<close> and no exception.\<close>

definition grid_value :: "axis \<Rightarrow> nat \<Rightarrow> rat \<Rightarrow> npfloat" where
  "grid_value a axis_count m =
     (if axis_count = 1 then NaN
      else Fin (ax_min a + m * (ax_max a - ax_min a) / (of_nat axis_count - 1)))"

definition expand_group ::
  "('v, 'p, 'k) registry \<Rightarrow> nat \<Rightarrow> (string \<rightharpoonup> nat) \<Rightarrow> axis list \<times> rat list \<Rightarrow> 'v builder
     \<Rightarrow> error + 'v builder" where
  "expand_group reg steps_count entity_sizes gm b =
     (case fst gm of
        [] \<Rightarrow> Inl IndexError
      | first_axis # _ \<Rightarrow>
          (case variable_entities b (ax_name first_axis) of
             None \<Rightarrow> Inl KeyError
           | Some axis_entity \<Rightarrow>
               (case entity_sizes (plural axis_entity) of
                  None \<Rightarrow> Inl KeyError
                | Some axis_entity_step_size \<Rightarrow>
                    (let axis_count = ax_count first_axis;
                         axis_entity_count = steps_count * axis_entity_step_size;
                         b1 = b\<lparr>axes_entity_counts :=
                                  (axes_entity_counts b)(plural axis_entity \<mapsto>
                                     axis_entity_count)\<rparr>
                     in ebind (get_ids b1 (plural axis_entity)) (\<lambda>ids.
                          write_axes reg axis_entity axis_entity_count axis_entity_step_size
                            (\<lambda>a. map (grid_value a axis_count) (snd gm))
                            (fst gm)
                            (b1\<lparr>axes_entity_ids :=
                                  (axes_entity_ids b1)(plural axis_entity \<mapsto>
                                     adjust_ids ids axis_entity_count)\<rparr>))))))"

fun expand_groups ::
  "('v, 'p, 'k) registry \<Rightarrow> nat \<Rightarrow> (string \<rightharpoonup> nat) \<Rightarrow> (axis list \<times> rat list) list
     \<Rightarrow> 'v builder \<Rightarrow> error + 'v builder" where
  "expand_groups reg steps_count entity_sizes [] b = Inr b"
| "expand_groups reg steps_count entity_sizes (gm # rest) b =
     ebind (expand_group reg steps_count entity_sizes gm b)
       (expand_groups reg steps_count entity_sizes rest)"

definition expand_perpendicular ::
  "('v, 'p, 'k) registry \<Rightarrow> 'v builder \<Rightarrow> error + 'v builder" where
  "expand_perpendicular reg b =
     ebind (first_axes (axes b)) (\<lambda>firsts.
       (let axes_linspaces =
              map (\<lambda>first_axis. linspace 0 (of_nat (ax_count first_axis) - 1)
                                   (ax_count first_axis)) firsts;
            axes_meshes = meshgrid axes_linspaces
        in ebind (axes_sizes b (axes b) (1, Map.empty)) (\<lambda>(steps_count, entity_sizes).
             expand_groups reg steps_count entity_sizes (zip (axes b) axes_meshes) b)))"

definition expand_axes :: "('v, 'p, 'k) registry \<Rightarrow> 'v builder \<Rightarrow> error + 'v builder" where
  "expand_axes reg b =
     (let b0 = b\<lparr>axes_entity_counts := Map.empty\<rparr>
      in (case axes b0 of
            [parallel_axes] \<Rightarrow>
              if parallel_axes \<noteq> [] then expand_parallel reg parallel_axes b0
              else expand_perpendicular reg b0
          | _ \<Rightarrow> expand_perpendicular reg b0))"

subsection \<open>The axes of a situation (\<^verbatim>\<open>build_from_entities\<close>, lines 103-108)\<close>

fun add_parallel_axes :: "axis list \<Rightarrow> 'v builder \<Rightarrow> error + 'v builder" where
  "add_parallel_axes [] b = Inr b"
| "add_parallel_axes (a # rest) b = ebind (add_parallel_axis b a) (add_parallel_axes rest)"

text \<open>\<open>axes\<close> is the value popped from the situation: \<open>None\<close> when the key is absent.
  An empty list is falsy.\<close>

definition build_from_entities_axes ::
  "('v, 'p, 'k) registry \<Rightarrow> axis list list list option \<Rightarrow> 'v builder \<Rightarrow> error + 'v builder" where
  "build_from_entities_axes reg axes_json b =
     ebind (add_parallel_axes (concat (concat (case axes_json of None \<Rightarrow> [] | Some xs \<Rightarrow> xs))) b)
       (\<lambda>b1. if axes_json \<noteq> None \<and> axes_json \<noteq> Some [] then expand_axes reg b1 else Inr b1)"

section \<open>Derived notions\<close>

text \<open>The array buffered for a variable and a period, and the buffer after
  \<^verbatim>\<open>get_input\<close> followed by \<^verbatim>\<open>self.input_buffer[variable][period] = array\<close>.\<close>

definition buffer_get :: "'v buffer \<Rightarrow> string \<Rightarrow> pkey \<Rightarrow> 'v list option" where
  "buffer_get buf variable period =
     (case dict_get buf variable of None \<Rightarrow> None | Some d \<Rightarrow> dict_get d period)"

definition buffer_put :: "'v buffer \<Rightarrow> string \<Rightarrow> pkey \<Rightarrow> 'v list \<Rightarrow> 'v buffer" where
  "buffer_put buf variable period array =
     dict_set buf variable
       (dict_set (case dict_get buf variable of None \<Rightarrow> [] | Some d \<Rightarrow> d) period array)"

text \<open>The list of a JSON value (empty for anything but a list), the persons that the
  role lists of a \<^verbatim>\<open>roles_json\<close> dictionary name, and the role list that an instance
  gives for a role, normalized by \<^verbatim>\<open>transform_to_strict_syntax\<close>.\<close>

definition json_list :: "json \<Rightarrow> json list" where
  "json_list v = (case v of JList xs \<Rightarrow> xs | _ \<Rightarrow> [])"

definition role_persons :: "jdict \<Rightarrow> json list" where
  "role_persons roles_json = concat (map (\<lambda>kv. json_list (snd kv)) roles_json)"

definition role_list :: "jdict \<Rightarrow> role \<Rightarrow> json list" where
  "role_list instance_object r =
     json_list (transform_to_strict_syntax
       (case dict_get instance_object (role_name r) of None \<Rightarrow> JList [] | Some d \<Rightarrow> d))"

text \<open>The persons referenced by some role list of some instance of a group kind.\<close>

definition referenced :: "entity \<Rightarrow> json \<Rightarrow> json list" where
  "referenced ent instances_json =
     (case instances_json of
        JDict instances \<Rightarrow>
          concat (map (\<lambda>inst. case snd inst of
                                  JDict instance_object \<Rightarrow>
                                    concat (map (role_list instance_object) (entity_roles ent))
                                | _ \<Rightarrow> [])
                    instances)
      | _ \<Rightarrow> [])"

text \<open>The (role, person) pairs that \<^verbatim>\<open>iter_over_entity_members\<close> yields for an instance,
  and those of all instances of a kind, each with the index of its instance among the ids
  of the kind: the assignments that \<^verbatim>\<open>add_group_entity\<close> writes into its arrays.\<close>

definition instance_members :: "entity \<Rightarrow> json \<Rightarrow> (role \<times> json) list" where
  "instance_members ent instance_json =
     (case instance_json of
        JDict instance_object \<Rightarrow>
          (case iter_over_entity_members ent
                  (snd (split_roles (entity_roles ent) instance_object [])) of
             Inr members \<Rightarrow> members
           | Inl e \<Rightarrow> [])
      | _ \<Rightarrow> [])"

definition all_members ::
  "entity \<Rightarrow> string list \<Rightarrow> jdict \<Rightarrow> (nat option \<times> role \<times> json) list" where
  "all_members ent ids instances =
     concat (map (\<lambda>inst. map (\<lambda>m. (list_index ids (fst inst), fst m, snd m))
                              (instance_members ent (snd inst)))
               instances)"

text \<open>
  A strided write of \<^verbatim>\<open>expand_axes\<close> seen from the input buffer alone: the array of a
  variable and period (or a default array when none is buffered, if one can be made)
  receives values at the slice \<^verbatim>\<open>[index::step]\<close> and is stored back.
\<close>

record 'v slice_write =
  sw_name :: string
  sw_period :: pkey
  sw_index :: int
  sw_step :: nat
  sw_values :: "'v list"
  sw_default :: "error + 'v list"

definition apply_write :: "'v slice_write \<Rightarrow> 'v buffer \<Rightarrow> error + 'v buffer" where
  "apply_write w buf =
     ebind (case buffer_get buf (sw_name w) (sw_period w) of
              None \<Rightarrow> sw_default w | Some array \<Rightarrow> Inr array)
       (\<lambda>array.
          ebind (slice_assign array (sw_index w) (sw_step w) (sw_values w))
            (\<lambda>array'. Inr (buffer_put buf (sw_name w) (sw_period w) array')))"

fun apply_writes :: "'v slice_write list \<Rightarrow> 'v buffer \<Rightarrow> error + 'v buffer" where
  "apply_writes [] buf = Inr buf"
| "apply_writes (w # ws) buf = ebind (apply_write w buf) (apply_writes ws)"

text \<open>
  Two dictionaries with the same keys in the same order whose values are related, by a
  relation that may depend on the key; values hidden behind an earlier entry of the same
  key are equal.
\<close>

fun rel_dict :: "('k \<Rightarrow> 'a \<Rightarrow> 'a \<Rightarrow> bool) \<Rightarrow> ('k \<times> 'a) list \<Rightarrow> ('k \<times> 'a) list \<Rightarrow> bool" where
  "rel_dict P [] [] = True"
| "rel_dict P (x # d) (y # d') =
     (fst x = fst y \<and> P (fst x) (snd x) (snd y) \<and>
      rel_dict (\<lambda>k a a'. if k = fst x then a = a' else P k a a') d d')"
| "rel_dict P [] (y # d') = False"
| "rel_dict P (x # d) [] = False"

text \<open>A write reaches position \<open>i\<close> of the array of length \<open>n\<close> buffered for a variable
  and period; two arrays agree wherever none of some writes reaches.\<close>

definition hits :: "'v slice_write \<Rightarrow> string \<Rightarrow> pkey \<Rightarrow> nat \<Rightarrow> nat \<Rightarrow> bool" where
  "hits w variable period n i =
     (sw_name w = variable \<and> sw_period w = period \<and>
      in_slice (slice_start (sw_index w) n) (sw_step w) i)"

definition agree_off ::
  "'v slice_write list \<Rightarrow> string \<Rightarrow> pkey \<Rightarrow> 'v list \<Rightarrow> 'v list \<Rightarrow> bool" where
  "agree_off ws variable period array array' =
     (length array = length array' \<and>
      (\<forall>i<length array. (\<forall>w\<in>set ws. \<not> hits w variable period (length array) i)
          \<longrightarrow> array ! i = array' ! i))"

definition buffers_agree_off :: "'v slice_write list \<Rightarrow> 'v buffer \<Rightarrow> 'v buffer \<Rightarrow> bool" where
  "buffers_agree_off ws = rel_dict (\<lambda>variable. rel_dict (agree_off ws variable))"

text \<open>The write that the loop body of \<^verbatim>\<open>expand_axes\<close> makes for an axis.\<close>

definition axis_write ::
  "('v, 'p, 'k) registry \<Rightarrow> 'v builder \<Rightarrow> entity \<Rightarrow> nat \<Rightarrow> nat \<Rightarrow> (axis \<Rightarrow> npfloat list)
     \<Rightarrow> axis \<Rightarrow> 'v slice_write" where
  "axis_write reg b axis_entity axis_entity_count axis_entity_step_size vals a =
     \<lparr>sw_name = ax_name a, sw_period = axis_period b a, sw_index = axis_index a,
      sw_step = axis_entity_step_size,
      sw_values = map (store_float reg (ax_name a)) (vals a),
      sw_default = (case get_variable reg axis_entity (ax_name a) of
                      None \<Rightarrow> Inl AttributeError
                    | Some v \<Rightarrow> Inr (default_array reg v axis_entity_count))\<rparr>"

text \<open>
  The array that the loop body of \<^verbatim>\<open>expand_axes\<close> takes for an axis: the one buffered for
  the variable and period of the axis, or else the default array of the variable, which
  \<^verbatim>\<open>get_variable\<close> must find. \<open>slice_of\<close> reads \<^verbatim>\<open>array[index::step]\<close>. An axis fits when the
  slice of its array has as many positions as there are steps.
\<close>

definition axis_array ::
  "('v, 'p, 'k) registry \<Rightarrow> 'v builder \<Rightarrow> entity \<Rightarrow> nat \<Rightarrow> axis \<Rightarrow> error + 'v list" where
  "axis_array reg b axis_entity axis_entity_count a =
     (case buffer_get (input_buffer b) (ax_name a) (axis_period b a) of
        Some array \<Rightarrow> Inr array
      | None \<Rightarrow>
          (case get_variable reg axis_entity (ax_name a) of
             None \<Rightarrow> Inl AttributeError
           | Some v \<Rightarrow> Inr (default_array reg v axis_entity_count)))"

definition slice_of :: "'v list \<Rightarrow> int \<Rightarrow> nat \<Rightarrow> 'v list" where
  "slice_of array index step =
     map (nth array)
       (filter (in_slice (slice_start index (length array)) step) [0..<length array])"

definition axis_fits ::
  "('v, 'p, 'k) registry \<Rightarrow> 'v builder \<Rightarrow> entity \<Rightarrow> nat \<Rightarrow> nat \<Rightarrow> axis \<Rightarrow> bool" where
  "axis_fits reg b axis_entity axis_count axis_entity_step_size a =
     (case axis_array reg b axis_entity (axis_count * axis_entity_step_size) a of
        Inl err \<Rightarrow> False
      | Inr array \<Rightarrow>
          length (slice_of array (axis_index a) axis_entity_step_size) = axis_count)"

text \<open>The (variable, period) an axis writes to.\<close>

definition axis_target :: "'v builder \<Rightarrow> axis \<Rightarrow> string \<times> pkey" where
  "axis_target b a = (ax_name a, axis_period b a)"

text \<open>The writes that the multiple-groups branch makes for a group and its grid.\<close>

definition group_writes ::
  "('v, 'p, 'k) registry \<Rightarrow> 'v builder \<Rightarrow> nat \<Rightarrow> (string \<rightharpoonup> nat) \<Rightarrow> axis list \<times> rat list
     \<Rightarrow> 'v slice_write list" where
  "group_writes reg b steps_count entity_sizes gm =
     (case fst gm of
        [] \<Rightarrow> []
      | first_axis # _ \<Rightarrow>
          (case variable_entities b (ax_name first_axis) of
             None \<Rightarrow> []
           | Some axis_entity \<Rightarrow>
               (case entity_sizes (plural axis_entity) of
                  None \<Rightarrow> []
                | Some axis_entity_step_size \<Rightarrow>
                    map (axis_write reg b axis_entity (steps_count * axis_entity_step_size)
                           axis_entity_step_size
                           (\<lambda>a. map (grid_value a (ax_count first_axis)) (snd gm)))
                      (fst gm))))"

text \<open>Two builders with the same axes, registered variables, recorded populations and
  default period: what \<^verbatim>\<open>expand_axes\<close> reads and never writes.\<close>

definition same_core :: "'v builder \<Rightarrow> 'v builder \<Rightarrow> bool" where
  "same_core b c =
     (axes c = axes b \<and> variable_entities c = variable_entities b \<and>
      entity_counts c = entity_counts b \<and> entity_ids c = entity_ids b \<and>
      default_period c = default_period b)"

text \<open>The builder after the adjustments of counts, ids, roles and memberships of the
  single-group branch, before any value is written.\<close>

definition parallel_population ::
  "'v builder \<Rightarrow> entity \<Rightarrow> nat \<Rightarrow> nat \<Rightarrow> string list \<Rightarrow> 'v builder" where
  "parallel_population b axis_entity axis_count axis_entity_step_size ids =
     (let b1 = b\<lparr>axes_entity_counts :=
                  (axes_entity_counts b)(plural axis_entity \<mapsto>
                     axis_count * axis_entity_step_size)\<rparr>;
          b2 = b1\<lparr>axes_entity_ids :=
                   (axes_entity_ids b1)(plural axis_entity \<mapsto>
                      adjust_ids ids (axis_count * axis_entity_step_size))\<rparr>;
          b3 = b2\<lparr>axes_roles :=
                   (axes_roles b2)(plural axis_entity \<mapsto>
                      concat (replicate axis_count (get_roles b2 (plural axis_entity))))\<rparr>;
          original_memberships = get_memberships b3 (plural axis_entity)
      in if original_memberships \<noteq> []
         then b3\<lparr>axes_memberships :=
                  (axes_memberships b3)(plural axis_entity \<mapsto>
                     adjust_memberships original_memberships axis_count
                       axis_entity_step_size)\<rparr>
         else b3)"

text \<open>\<open>digit_extension y x\<close>: the text \<open>x\<close> is the text \<open>y\<close> followed by one or more
  decimal digits.\<close>

definition digit_extension :: "string \<Rightarrow> string \<Rightarrow> bool" where
  "digit_extension y x =
     (length y < length x \<and> take (length y) x = y \<and> list_all is_digit (drop (length y) x))"

text \<open>The ids of a kind after \<^verbatim>\<open>expand_axes\<close>.\<close>

definition expanded_ids ::
  "('v, 'p, 'k) registry \<Rightarrow> 'v builder \<Rightarrow> string \<Rightarrow> error + string list" where
  "expanded_ids reg b entity_name = ebind (expand_axes reg b) (\<lambda>b'. get_ids b' entity_name)"

text \<open>The periods of the \<^verbatim>\<open>set_input\<close> calls made for a variable, in call order.\<close>

definition committed_periods :: "string \<Rightarrow> ('p, 'v) commits \<Rightarrow> 'p list" where
  "committed_periods v calls = map (\<lambda>c. fst (snd c)) (filter (\<lambda>c. fst c = v) calls)"

section \<open>Example inputs\<close>

text \<open>A system with persons and households, a registry of the float variables
  \<open>salary\<close> and \<open>rent\<close> whose periods are their own keys (a year is four characters, a
  month seven), and a builder holding one person.\<close>

definition example_persons :: entity where
  "example_persons = \<lparr>key = ''person'', plural = ''persons'', entity_roles = []\<rparr>"

definition example_households :: entity where
  "example_households =
     \<lparr>key = ''household'', plural = ''households'',
      entity_roles = [Role ''parent'' (Some ''parents'') (Some 2) [],
                      Role ''child'' (Some ''children'') None []]\<rparr>"

definition example_tbs :: "entity list" where
  "example_tbs = [example_persons, example_households]"

definition example_period_size :: "string \<Rightarrow> nat" where
  "example_period_size p = (if length p = 4 then 300 else if length p = 7 then 200 else 100)"

definition example_registry :: "(npfloat, string, nat) registry" where
  "example_registry =
     \<lparr>check_variable_defined_for_entity =
        (\<lambda>e v. if v \<in> set [''salary'', ''rent''] then Defined
               else VariableNotFound ''no such variable''),
      get_variable = (\<lambda>e v. if v \<in> set [''salary'', ''rent''] then Some v else None),
      default_array = (\<lambda>v n. replicate n (Fin 0)),
      check_set_value = (\<lambda>v j. case j of JInt i \<Rightarrow> Inr (Fin (of_int i))
                                  | JFloat q \<Rightarrow> Inr (Fin q)
                                  | _ \<Rightarrow> Inl ''not a number''),
      store_float = (\<lambda>v x. x),
      make_period = (\<lambda>k. case k of None \<Rightarrow> Inl ''no period'' | Some s \<Rightarrow> Inr s),
      str_period = (\<lambda>p. p),
      key_period_size = example_period_size,
      get_holder = (\<lambda>e v. True),
      set_input = (\<lambda>calls v p a. False)\<rparr>"

definition example_builder :: "npfloat builder" where
  "example_builder =
     \<lparr>default_period = None, input_buffer = [],
      entity_counts = [''persons'' \<mapsto> 1], entity_ids = [''persons'' \<mapsto> [''Alicia'']],
      memberships = Map.empty, roles = Map.empty,
      variable_entities = [''salary'' \<mapsto> example_persons, ''rent'' \<mapsto> example_persons],
      axes = [[]],
      axes_entity_counts = Map.empty, axes_entity_ids = Map.empty,
      axes_memberships = Map.empty, axes_roles = Map.empty\<rparr>"

definition example_buffered :: "npfloat builder" where
  "example_buffered =
     example_builder\<lparr>input_buffer :=
       [(''salary'', [(Some ''2024'', [Fin 1200]), (Some ''2024-01'', [Fin 100])])]\<rparr>"

definition example_sim :: sim_entity where
  "example_sim = \<lparr>se_count = None, se_ids = None, members_entity_id = None,
                   members_role = None\<rparr>"

text \<open>Two persons and three descriptions of their households: a complete one, one that
  leaves Javier out, and one that leaves Javier out and names Alicia twice.\<close>

definition two_persons :: "string list" where
  "two_persons = [''Alicia'', ''Javier'']"

definition complete_households :: json where
  "complete_households =
     JDict [(''h1'', JDict [(''parents'', JList [JStr ''Alicia''])]),
            (''h2'', JDict [(''parents'', JStr ''Javier'')])]"

definition incomplete_households :: json where
  "incomplete_households = JDict [(''h1'', JDict [(''parents'', JList [JStr ''Alicia''])])]"

definition repeating_households :: json where
  "repeating_households =
     JDict [(''h1'', JDict [(''parents'', JList [JStr ''Alicia'', JStr ''Alicia''])])]"

definition salary_axis :: axis where
  "salary_axis = \<lparr>ax_name = ''salary'', ax_count = 3, ax_min = 0, ax_max = 100,
                   ax_period = Some ''2018-11'', ax_index = Some 0\<rparr>"

definition rent_axis :: axis where
  "rent_axis = \<lparr>ax_name = ''rent'', ax_count = 3, ax_min = 10, ax_max = 30,
                 ax_period = Some ''2018-11'', ax_index = None\<rparr>"

text \<open>Two parallel axes that do not match: the second declares seven steps where the
  first has three.\<close>

definition example_parallel :: "npfloat builder" where
  "example_parallel = example_builder\<lparr>axes := [[salary_axis, rent_axis\<lparr>ax_count := 7\<rparr>]]\<rparr>"

definition example_parallel_expanded :: "npfloat builder" where
  "example_parallel_expanded =
     example_parallel
       \<lparr>input_buffer := [(''salary'', [(Some ''2018-11'', [Fin 0, Fin 50, Fin 100])]),
                         (''rent'', [(Some ''2018-11'', [Fin 10, Fin 20, Fin 30])])],
        axes_entity_counts := [''persons'' \<mapsto> 3],
        axes_entity_ids := [''persons'' \<mapsto> [''Alicia0'', ''Alicia1'', ''Alicia2'']],
        axes_roles := [''persons'' \<mapsto> []]\<rparr>"


section \<open>The situation normalizer\<close>

lemma dict_set_mem:
  "(k, v) \<in> set (dict_set d k' v') \<Longrightarrow> (k, v) \<in> set d \<or> (k = k' \<and> v = v')"
  by (induction d) (auto split: if_splits)

lemma foldl_rekey_mem:
  "(k, v) \<in> set (foldl (rekey_singular tbs) res svs) \<Longrightarrow>
     (k, v) \<in> set res \<or>
     (\<exists>s d e. (s, d) \<in> set svs \<and> entities_by_singular tbs s = Some e \<and>
        k = plural e \<and> v = JDict [(s, d)])"
proof (induction svs arbitrary: res)
  case Nil then show ?case by simp
next
  case (Cons sv svs)
  from Cons.IH[OF Cons.prems[simplified]] show ?case
    by (cases sv) (auto simp: rekey_singular_def split: option.splits dest!: dict_set_mem)
qed

lemma entities_by_singular_mem: "entities_by_singular tbs s = Some e \<Longrightarrow> e \<in> set tbs"
  by (auto simp: entities_by_singular_def dest!: find_Some_iff[THEN iffD1] nth_mem)

text \<open>
  Claim C5, as amended. When the document has at least one top-level key that is the
  singular name of a kind, every key of the result of \<^verbatim>\<open>explicit_singular_entities\<close> is a
  plural kind name, and every entry is either a plural-keyed entry of the document or a
  singular shortcut \<open>s\<close> re-keyed as \<open>{s: fields}\<close> under the plural of its kind. When
  the document has no such key, it is returned unchanged.
\<close>

theorem explicit_singular_entities_keys:
  "(singular_keys tbs input_dict \<noteq> [] \<longrightarrow>
      (\<forall>(k, v) \<in> set (explicit_singular_entities tbs input_dict).
         k \<in> set (entities_plural tbs) \<and>
         ((k, v) \<in> set input_dict \<or>
          (\<exists>s d e. (s, d) \<in> set input_dict \<and> entities_by_singular tbs s = Some e \<and>
             k = plural e \<and> v = JDict [(s, d)])))) \<and>
   (singular_keys tbs input_dict = [] \<longrightarrow>
      explicit_singular_entities tbs input_dict = input_dict)"
proof (intro conjI impI)
  assume ne: "singular_keys tbs input_dict \<noteq> []"
  show "\<forall>(k, v) \<in> set (explicit_singular_entities tbs input_dict).
         k \<in> set (entities_plural tbs) \<and>
         ((k, v) \<in> set input_dict \<or>
          (\<exists>s d e. (s, d) \<in> set input_dict \<and> entities_by_singular tbs s = Some e \<and>
             k = plural e \<and> v = JDict [(s, d)]))"
  proof (clarify)
    fix k v assume "(k, v) \<in> set (explicit_singular_entities tbs input_dict)"
    with ne have "(k, v) \<in> set (foldl (rekey_singular tbs)
        (filter (\<lambda>(entity_id, entity_description). entity_id \<in> set (entities_plural tbs)) input_dict)
        (singular_keys tbs input_dict))"
      by (simp add: explicit_singular_entities_def)
    from foldl_rekey_mem[OF this]
    show "k \<in> set (entities_plural tbs) \<and>
         ((k, v) \<in> set input_dict \<or>
          (\<exists>s d e. (s, d) \<in> set input_dict \<and> entities_by_singular tbs s = Some e \<and>
             k = plural e \<and> v = JDict [(s, d)]))"
      by (auto simp: singular_keys_def entities_plural_def dest: entities_by_singular_mem)
  qed
next
  assume "singular_keys tbs input_dict = []"
  then show "explicit_singular_entities tbs input_dict = input_dict"
    by (simp add: explicit_singular_entities_def)
qed

theorem explicit_singular_entities_keys_witness:
  "singular_keys example_tbs
     [(''persons'', JDict []), (''axes'', JList []), (''household'', JDict [])] \<noteq> [] \<and>
   list_all (\<lambda>kv. fst kv \<in> set (entities_plural example_tbs))
     (explicit_singular_entities example_tbs
        [(''persons'', JDict []), (''axes'', JList []), (''household'', JDict [])]) \<and>
   singular_keys example_tbs [(''persons'', JDict []), (''axes'', JList [])] = [] \<and>
   explicit_singular_entities example_tbs [(''persons'', JDict []), (''axes'', JList [])]
     = [(''persons'', JDict []), (''axes'', JList [])]"
proof -
  have h1: "singular_keys example_tbs
     [(''persons'', JDict []), (''axes'', JList []), (''household'', JDict [])] \<noteq> []"
    by (simp add: singular_keys_def entities_by_singular_def example_tbs_def
          example_persons_def example_households_def)
  have h2: "singular_keys example_tbs [(''persons'', JDict []), (''axes'', JList [])] = []"
    by (simp add: singular_keys_def entities_by_singular_def example_tbs_def
          example_persons_def example_households_def)
  from h1 h2
    explicit_singular_entities_keys[of example_tbs
      "[(''persons'', JDict []), (''axes'', JList []), (''household'', JDict [])]"]
    explicit_singular_entities_keys[of example_tbs
      "[(''persons'', JDict []), (''axes'', JList [])]"]
  show ?thesis unfolding list_all_iff by fastforce
qed

text \<open>
  Claim C5 as stated fails: a document without any singular key is returned as it is, and
  a key that names no kind stays in it.
\<close>

theorem explicit_singular_entities_keeps_unknown_key:
  "dict_get (explicit_singular_entities example_tbs
               [(''persons'', JDict []), (''unknown'', JDict [])]) ''unknown'' = Some (JDict []) \<and>
   ''unknown'' \<notin> set (entities_plural example_tbs) \<and>
   entities_by_singular example_tbs ''unknown'' = None"
  by (simp add: explicit_singular_entities_def singular_keys_def entities_by_singular_def
        entities_plural_def example_tbs_def example_persons_def example_households_def)

section \<open>Axis expansion\<close>

text \<open>
  Claim C9. When the axes are the single empty group \<open>[[]]\<close> of a fresh builder,
  \<^verbatim>\<open>expand_axes\<close> takes the multiple-groups branch, reads the first element of the empty
  group and raises \<^verbatim>\<open>IndexError\<close>, not a \<^verbatim>\<open>SituationParsingError\<close>; the axes value
  \<open>[[]]\<close> of a situation adds no axis and reaches that call.
\<close>

theorem expand_axes_empty_group:
  "axes b = [[]] \<Longrightarrow>
     expand_axes reg b = Inl IndexError \<and>
     build_from_entities_axes reg (Some [[]]) b = Inl IndexError"
  by (simp add: expand_axes_def expand_perpendicular_def build_from_entities_axes_def ebind_def)

theorem expand_axes_empty_group_witness:
  "axes example_builder = [[]] \<and>
   expand_axes example_registry example_builder = Inl IndexError \<and>
   build_from_entities_axes example_registry (Some [[]]) example_builder = Inl IndexError"
  using expand_axes_empty_group[of example_builder example_registry]
  by (simp add: example_builder_def)

subsection \<open>Buffer and slice lemmas\<close>

lemma ebind_simps [simp]: "ebind (Inl e) f = Inl e" "ebind (Inr x) f = f x"
  by (simp_all add: ebind_def)

lemma dict_get_set [simp]: "dict_get (dict_set d k v) k' = (if k' = k then Some v else dict_get d k')"
  by (induction d) auto

lemma dict_set_set [simp]: "dict_set (dict_set d k v) k v' = dict_set d k v'"
  by (induction d) auto

lemma buffer_get_put [simp]:
  "buffer_get (buffer_put buf n p arr) n' p' =
     (if n' = n \<and> p' = p then Some arr else buffer_get buf n' p')"
  by (auto simp: buffer_get_def buffer_put_def split: option.splits)

lemma get_input_fst [simp]: "fst (get_input b n p) = buffer_get (input_buffer b) n p"
  by (simp add: get_input_def buffer_get_def split: option.splits)

lemma write_axis_eq:
  "write_axis reg e cnt step vals a b =
     ebind (axis_array reg b e cnt a)
       (\<lambda>array.
          ebind (slice_assign array (axis_index a) step
                   (map (store_float reg (ax_name a)) (vals a)))
            (\<lambda>array'. Inr (b\<lparr>input_buffer :=
                  buffer_put (input_buffer b) (ax_name a) (axis_period b a) array'\<rparr>)))"
proof (cases "axis_array reg b e cnt a")
  case (Inl err)
  then show ?thesis
    by (auto simp: write_axis_def axis_array_def get_input_def buffer_get_def Let_def
        split: option.splits)
next
  case (Inr array)
  then show ?thesis
    by (cases "slice_assign array (axis_index a) step
                 (map (store_float reg (ax_name a)) (vals a))")
       (auto simp: write_axis_def axis_array_def get_input_def set_buffer_def buffer_get_def
          buffer_put_def Let_def split: option.splits)
qed


lemma axis_period_update [simp]:
  "axis_period (b\<lparr>input_buffer := x\<rparr>) a = axis_period b a"
  "axis_period (b\<lparr>axes_entity_counts := y\<rparr>) a = axis_period b a"
  "axis_period (b\<lparr>axes_entity_ids := z\<rparr>) a = axis_period b a"
  "axis_period (b\<lparr>axes_roles := u\<rparr>) a = axis_period b a"
  "axis_period (b\<lparr>axes_memberships := w\<rparr>) a = axis_period b a"
  "axis_period (b\<lparr>axes := ax\<rparr>) a = axis_period b a"
  "axis_period (b\<lparr>variable_entities := ve\<rparr>) a = axis_period b a"
  by (simp_all add: axis_period_def split: option.splits)

lemma axis_array_update [simp]:
  "axis_array reg (b\<lparr>axes_entity_counts := y\<rparr>) = axis_array reg b"
  "axis_array reg (b\<lparr>axes_entity_ids := z\<rparr>) = axis_array reg b"
  "axis_array reg (b\<lparr>axes_roles := u\<rparr>) = axis_array reg b"
  "axis_array reg (b\<lparr>axes_memberships := w\<rparr>) = axis_array reg b"
  "axis_array reg (b\<lparr>axes := ax\<rparr>) = axis_array reg b"
  "axis_array reg (b\<lparr>variable_entities := ve\<rparr>) = axis_array reg b"
  by (simp_all add: axis_array_def fun_eq_iff)

lemma axis_array_put:
  "\<not> (ax_name c = n \<and> axis_period b c = p) \<Longrightarrow>
   axis_array reg (b\<lparr>input_buffer := buffer_put (input_buffer b) n p arr\<rparr>) e cnt c =
   axis_array reg b e cnt c"
  by (auto simp: axis_array_def)





lemmas example_defs = example_builder_def example_registry_def example_persons_def
  salary_axis_def rent_axis_def

subsection \<open>One parallel axis of three steps\<close>




subsection \<open>Two perpendicular axes of two and three steps\<close>






subsection \<open>Ids of the expanded population\<close>

lemma lt10_cases:
  "d < 10 \<Longrightarrow> d = 0 \<or> d = 1 \<or> d = 2 \<or> d = 3 \<or> d = 4 \<or> d = 5 \<or> d = 6 \<or> d = 7 \<or> d = 8 \<or> d = (9::nat)"
  by arith

lemma digit_val_char: "d < 10 \<Longrightarrow> digit_val (digit_char d) = d"
  by (drule lt10_cases) (auto simp: digit_val_def digit_char_def)

lemma is_digit_char: "d < 10 \<Longrightarrow> is_digit (digit_char d)"
  by (drule lt10_cases) (auto simp: is_digit_def digit_char_def)

lemma digits_value_snoc: "digits_value (s @ [c]) = 10 * digits_value s + digit_val c"
  by (simp add: digits_value_def)

lemma digits_value_str_nat: "digits_value (str_nat n) = n"
proof (induction n rule: str_nat.induct)
  case (1 n)
  show ?case
  proof (cases "n < 10")
    case True
    then show ?thesis
      by (subst str_nat.simps) (simp add: digits_value_def digit_val_char)
  next
    case False
    with 1 have "digits_value (str_nat (n div 10)) = n div 10" by simp
    with False show ?thesis
      by (subst str_nat.simps) (simp add: digits_value_snoc digit_val_char)
  qed
qed

lemma str_nat_inj: "str_nat m = str_nat n \<Longrightarrow> m = n"
  by (metis digits_value_str_nat)

lemma str_nat_digits: "list_all is_digit (str_nat n)"
proof (induction n rule: str_nat.induct)
  case (1 n)
  show ?case
  proof (cases "n < 10")
    case True
    then show ?thesis by (subst str_nat.simps) (simp add: is_digit_char)
  next
    case False
    with 1 show ?thesis by (subst str_nat.simps) (simp add: is_digit_char)
  qed
qed

lemma suffixed_eq:
  assumes eq: "x @ str_nat i = y @ str_nat j"
    and nx: "\<not> digit_extension y x" and ny: "\<not> digit_extension x y"
  shows "i = j"
proof -
  from eq obtain t where t: "(x = y @ t \<and> t @ str_nat i = str_nat j) \<or>
      (x @ t = y \<and> str_nat i = t @ str_nat j)"
    by (auto simp: append_eq_append_conv2)
  then show ?thesis
  proof
    assume a: "x = y @ t \<and> t @ str_nat i = str_nat j"
    then have "list_all is_digit t"
      using str_nat_digits[of j] by (metis list_all_append)
    with a nx have "t = []" by (auto simp: digit_extension_def)
    with a show ?thesis by (simp add: str_nat_inj)
  next
    assume a: "x @ t = y \<and> str_nat i = t @ str_nat j"
    then have "list_all is_digit t"
      using str_nat_digits[of i] by (metis list_all_append)
    with a ny have "t = []" by (auto simp: digit_extension_def)
    with a show ?thesis by (simp add: str_nat_inj)
  qed
qed

lemma distinct_suffixed:
  assumes "\<forall>x\<in>set xs. \<forall>y\<in>set xs. \<not> digit_extension y x" and "length xs = n"
  shows "distinct (map (\<lambda>(id, ix). id @ str_nat ix) (zip xs [0..<n]))"
proof -
  have "\<And>i j. i < n \<Longrightarrow> j < n \<Longrightarrow> xs ! i @ str_nat i = xs ! j @ str_nat j \<Longrightarrow> i = j"
    using assms by (meson nth_mem suffixed_eq)
  then show ?thesis
    using assms(2) by (auto simp: distinct_conv_nth)
qed

lemma take_concat_replicate:
  "take (n * length xs) (concat (replicate (n * length xs) xs)) = concat (replicate n xs)"
proof (cases "xs = []")
  case True then show ?thesis by simp
next
  case False
  then have "n \<le> n * length xs" by (cases xs) auto
  then obtain k where k: "n * length xs = n + k" using le_Suc_ex by blast
  have len: "length (concat (replicate n xs)) = n * length xs"
    by (induction n) auto
  have "concat (replicate (n + k) xs) = concat (replicate n xs) @ concat (replicate k xs)"
    by (simp add: replicate_add)
  with k len show ?thesis by simp
qed

lemma zip_take_left: "zip xs ys = zip (take (length ys) xs) ys"
  by (induction xs ys rule: list_induct2') auto

lemma adjust_ids_eq:
  "adjust_ids ids (n * length ids) =
     map (\<lambda>(id, ix). id @ str_nat ix) (zip (concat (replicate n ids)) [0..<n * length ids])"
proof -
  have "zip (concat (replicate (n * length ids) ids)) [0..<n * length ids] =
        zip (take (n * length ids) (concat (replicate (n * length ids) ids))) [0..<n * length ids]"
    using zip_take_left[of "concat (replicate (n * length ids) ids)" "[0..<n * length ids]"]
    by simp
  then show ?thesis by (simp add: adjust_ids_def take_concat_replicate)
qed

lemma write_axis_fields:
  "write_axis reg e cnt step vals a b = Inr b' \<Longrightarrow> \<exists>buf. b' = b\<lparr>input_buffer := buf\<rparr>"
  by (auto simp: write_axis_eq ebind_def split: sum.splits)

lemma write_axes_fields:
  "write_axes reg e cnt step vals as b = Inr b' \<Longrightarrow> \<exists>buf. b' = b\<lparr>input_buffer := buf\<rparr>"
proof (induction as arbitrary: b)
  case Nil
  then show ?case by (auto intro: exI[of _ "input_buffer b"])
next
  case (Cons a as)
  from Cons.prems obtain b1 where b1: "write_axis reg e cnt step vals a b = Inr b1"
    and rest: "write_axes reg e cnt step vals as b1 = Inr b'"
    by (auto simp: ebind_def split: sum.splits)
  from write_axis_fields[OF b1] Cons.IH[OF rest] show ?case by auto
qed

lemma expand_parallel_ids:
  assumes "axes b = [first_axis # rest]"
    and "variable_entities b (ax_name first_axis) = Some e"
    and "get_ids b (plural e) = Inr ids"
    and "entity_counts b (plural e) = Some (length ids)"
    and "expand_axes reg b = Inr b'"
  shows "get_ids b' (plural e) =
           Inr (map (\<lambda>(id, ix). id @ str_nat ix)
                  (zip (concat (replicate (ax_count first_axis) ids))
                     [0..<ax_count first_axis * length ids])) \<and>
         ((\<forall>x\<in>set ids. \<forall>y\<in>set ids. \<not> digit_extension y x) \<longrightarrow>
            distinct (map (\<lambda>(id, ix). id @ str_nat ix)
                  (zip (concat (replicate (ax_count first_axis) ids))
                     [0..<ax_count first_axis * length ids])))"
proof
  let ?n = "ax_count first_axis"
  let ?b4 = "\<lambda>b3. (if get_memberships b3 (plural e) \<noteq> []
            then b3\<lparr>axes_memberships := (axes_memberships b3)(plural e \<mapsto>
                  adjust_memberships (get_memberships b3 (plural e)) ?n (length ids))\<rparr>
            else b3)"
  from assms obtain b4 where
    w: "write_axes reg e (?n * length ids) (length ids)
          (\<lambda>a. map Fin (linspace (ax_min a) (ax_max a) ?n)) (first_axis # rest) b4 = Inr b'"
    and ids4: "axes_entity_ids b4 (plural e) = Some (adjust_ids ids (?n * length ids))"
    and e4: "entity_ids b4 = entity_ids b"
    by (auto simp: expand_axes_def expand_parallel_def get_count_def get_ids_def Let_def
          split: option.splits if_splits)
  from write_axes_fields[OF w] ids4 e4 assms(3)
  have "get_ids b' (plural e) = Inr (adjust_ids ids (?n * length ids))"
    by (auto simp: get_ids_def split: option.splits)
  then show "get_ids b' (plural e) =
           Inr (map (\<lambda>(id, ix). id @ str_nat ix)
                  (zip (concat (replicate ?n ids)) [0..<?n * length ids]))"
    by (simp add: adjust_ids_eq)
next
  show "(\<forall>x\<in>set ids. \<forall>y\<in>set ids. \<not> digit_extension y x) \<longrightarrow>
            distinct (map (\<lambda>(id, ix). id @ str_nat ix)
                  (zip (concat (replicate (ax_count first_axis) ids))
                     [0..<ax_count first_axis * length ids]))"
  proof
    assume h: "\<forall>x\<in>set ids. \<forall>y\<in>set ids. \<not> digit_extension y x"
    have len: "length (concat (replicate (ax_count first_axis) ids)) =
                 ax_count first_axis * length ids"
      by (induction "ax_count first_axis") (auto simp: length_concat sum_list_replicate)
    have "set (concat (replicate (ax_count first_axis) ids)) \<subseteq> set ids" by auto
    with h have "\<forall>x\<in>set (concat (replicate (ax_count first_axis) ids)).
          \<forall>y\<in>set (concat (replicate (ax_count first_axis) ids)). \<not> digit_extension y x"
      by blast
    from distinct_suffixed[OF this len] show "distinct (map (\<lambda>(id, ix). id @ str_nat ix)
                  (zip (concat (replicate (ax_count first_axis) ids))
                     [0..<ax_count first_axis * length ids]))" .
  qed
qed

text \<open>
  Claim C2, as amended. In the single-group branch of \<^verbatim>\<open>expand_axes\<close>, for a kind whose
  recorded count \<open>S\<close> is the length of its id sequence and a first axis of \<open>N\<close> steps, the
  new id sequence is the original one repeated \<open>N\<close> times with every element suffixed by
  its position among the \<open>N * S\<close>. The new ids are pairwise distinct when no original id
  is another original id followed by decimal digits.
\<close>

theorem expand_axes_ids:
  assumes "axes b = [first_axis # rest]"
    and "variable_entities b (ax_name first_axis) = Some e"
    and "get_ids b (plural e) = Inr ids"
    and "entity_counts b (plural e) = Some (length ids)"
    and "expanded_ids reg b (plural e) = Inr new_ids"
  shows "new_ids = map (\<lambda>(id, ix). id @ str_nat ix)
                     (zip (concat (replicate (ax_count first_axis) ids))
                        [0..<ax_count first_axis * length ids]) \<and>
         ((\<forall>x\<in>set ids. \<forall>y\<in>set ids. \<not> digit_extension y x) \<longrightarrow> distinct new_ids)"
proof -
  from assms(5) obtain b' where b': "expand_axes reg b = Inr b'"
    and new: "get_ids b' (plural e) = Inr new_ids"
    by (auto simp: expanded_ids_def ebind_def split: sum.splits)
  from expand_parallel_ids[OF assms(1-4) b'] new show ?thesis by simp
qed

theorem expand_axes_ids_witness:
  "expanded_ids example_registry (example_builder\<lparr>axes := [[salary_axis]]\<rparr>) ''persons'' =
     Inr [''Alicia0'', ''Alicia1'', ''Alicia2''] \<and>
   distinct [''Alicia0'', ''Alicia1'', ''Alicia2'']"
proof -
  have run: "expanded_ids example_registry (example_builder\<lparr>axes := [[salary_axis]]\<rparr>)
               ''persons'' = Inr [''Alicia0'', ''Alicia1'', ''Alicia2'']"
    by code_simp
  have ok: "\<forall>x\<in>set [''Alicia'']. \<forall>y\<in>set [''Alicia'']. \<not> digit_extension y x"
    by (simp add: digit_extension_def)
  have pre: "axes (example_builder\<lparr>axes := [[salary_axis]]\<rparr>) = [salary_axis # []]"
    "variable_entities (example_builder\<lparr>axes := [[salary_axis]]\<rparr>) (ax_name salary_axis)
       = Some example_persons"
    "get_ids (example_builder\<lparr>axes := [[salary_axis]]\<rparr>) (plural example_persons)
       = Inr [''Alicia'']"
    "entity_counts (example_builder\<lparr>axes := [[salary_axis]]\<rparr>) (plural example_persons)
       = Some (length [''Alicia''])"
    by (simp_all add: example_defs get_ids_def)
  have run': "expanded_ids example_registry (example_builder\<lparr>axes := [[salary_axis]]\<rparr>)
               (plural example_persons) = Inr [''Alicia0'', ''Alicia1'', ''Alicia2'']"
    using run by (simp add: example_persons_def)
  from expand_axes_ids[OF pre run'] ok
  have "distinct [''Alicia0'', ''Alicia1'', ''Alicia2'']" by blast
  with run show ?thesis by blast
qed

text \<open>
  Claim C2 as stated fails for arbitrary strings: with the ids \<open>Ann1\<close>, \<open>Ann\<close>, \<open>Bob\<close>
  and four steps, positions 0 and 10 both receive \<open>Ann10\<close>.
\<close>

theorem expand_axes_ids_collide:
  "expanded_ids example_registry
     (example_builder\<lparr>axes := [[salary_axis\<lparr>ax_count := 4\<rparr>]],
        entity_counts := [''persons'' \<mapsto> 3],
        entity_ids := [''persons'' \<mapsto> [''Ann1'', ''Ann'', ''Bob'']]\<rparr>) ''persons'' =
     Inr [''Ann10'', ''Ann1'', ''Bob2'', ''Ann13'', ''Ann4'', ''Bob5'',
          ''Ann16'', ''Ann7'', ''Bob8'', ''Ann19'', ''Ann10'', ''Bob11''] \<and>
   \<not> distinct [''Ann10'', ''Ann1'', ''Bob2'', ''Ann13'', ''Ann4'', ''Bob5'',
          ''Ann16'', ''Ann7'', ''Bob8'', ''Ann19'', ''Ann10'', ''Bob11'']"
  by code_simp

section \<open>The finalizer\<close>

lemma committed_periods_append [simp]:
  "committed_periods v (xs @ ys) = committed_periods v xs @ committed_periods v ys"
  by (simp add: committed_periods_def)

lemma committed_periods_Nil [simp]: "committed_periods v [] = []"
  by (simp add: committed_periods_def)

lemma commit_periods_calls:
  "commit_periods reg v buf ps calls = (calls', err) \<Longrightarrow>
     \<exists>new n. calls' = calls @ new \<and> n \<le> length ps \<and>
       committed_periods v new = take n ps \<and>
       (\<forall>w. w \<noteq> v \<longrightarrow> committed_periods w new = []) \<and>
       (err = None \<longrightarrow> n = length ps)"
proof (induction ps arbitrary: calls)
  case Nil
  then show ?case by auto
next
  case (Cons p ps)
  show ?case
  proof (cases "dict_get buf (Some (str_period reg p))")
    case None
    with Cons.prems show ?thesis
      by (intro exI[of _ "[]"] exI[of _ 0]) auto
  next
    case (Some array)
    show ?thesis
    proof (cases "set_input reg calls v p array")
      case True
      with Some Cons.prems show ?thesis
        by (intro exI[of _ "[(v, p, array)]"] exI[of _ 1]) (auto simp: committed_periods_def)
    next
      case False
      with Some Cons.prems
      have "commit_periods reg v buf ps (calls @ [(v, p, array)]) = (calls', err)" by simp
      from Cons.IH[OF this] obtain new n where
        n: "calls' = (calls @ [(v, p, array)]) @ new" "n \<le> length ps"
           "committed_periods v new = take n ps"
           "\<forall>w. w \<noteq> v \<longrightarrow> committed_periods w new = []"
           "err = None \<longrightarrow> n = length ps"
        by blast
      then show ?thesis
        by (intro exI[of _ "(v, p, array) # new"] exI[of _ "Suc n"])
           (auto simp: committed_periods_def)
    qed
  qed
qed

lemma sorted_take_sort_key: "sorted (map f (take n (sort_key f xs)))"
  by (metis sorted_map sorted_sort_key sorted_wrt_take take_map)

lemma finalize_variables_calls:
  assumes "finalize_variables reg ent entries calls = (calls', err)"
    and "distinct (map fst entries)"
  shows "\<exists>new. calls' = calls @ new \<and>
     (\<forall>v. sorted (map (key_period_size reg) (committed_periods v new)) \<and>
          (v \<notin> fst ` set entries \<longrightarrow> committed_periods v new = []) \<and>
          (err = None \<longrightarrow> get_holder reg ent v \<longrightarrow>
             (\<forall>buffer. dict_get entries v = Some buffer \<longrightarrow>
                (\<exists>ps. parse_periods reg (map fst buffer) = Inr ps \<and>
                   committed_periods v new = sort_key (key_period_size reg) ps))))"
  using assms
proof (induction entries arbitrary: calls)
  case Nil
  then show ?case by auto
next
  case (Cons entry entries)
  obtain name buffer where entry: "entry = (name, buffer)" by (cases entry)
  from Cons.prems(2) entry have d: "distinct (map fst entries)" and
    fresh: "name \<notin> fst ` set entries" by auto
  show ?case
  proof (cases "get_holder reg ent name")
    case False
    with Cons.prems(1) entry
    have "finalize_variables reg ent entries calls = (calls', err)" by simp
    from Cons.IH[OF this d] obtain new where new: "calls' = calls @ new"
      "\<forall>v. sorted (map (key_period_size reg) (committed_periods v new)) \<and>
          (v \<notin> fst ` set entries \<longrightarrow> committed_periods v new = []) \<and>
          (err = None \<longrightarrow> get_holder reg ent v \<longrightarrow>
             (\<forall>buffer. dict_get entries v = Some buffer \<longrightarrow>
                (\<exists>ps. parse_periods reg (map fst buffer) = Inr ps \<and>
                   committed_periods v new = sort_key (key_period_size reg) ps)))"
      by blast
    with False entry show ?thesis
      by (intro exI[of _ new]) auto
  next
    case True
    show ?thesis
    proof (cases "parse_periods reg (map fst buffer)")
      case (Inl e)
      with True Cons.prems(1) entry show ?thesis
        by (intro exI[of _ "[]"]) auto
    next
      case (Inr ps)
      obtain calls1 err1 where c1: "commit_periods reg name buffer
          (sort_key (key_period_size reg) ps) calls = (calls1, err1)"
        by (cases "commit_periods reg name buffer (sort_key (key_period_size reg) ps) calls")
      from commit_periods_calls[OF c1] obtain new1 n where n1:
        "calls1 = calls @ new1" "n \<le> length (sort_key (key_period_size reg) ps)"
        "committed_periods name new1 = take n (sort_key (key_period_size reg) ps)"
        "\<forall>w. w \<noteq> name \<longrightarrow> committed_periods w new1 = []"
        "err1 = None \<longrightarrow> n = length (sort_key (key_period_size reg) ps)"
        by blast
      have s1: "sorted (map (key_period_size reg) (committed_periods name new1))"
        using n1(3) by (simp add: sorted_take_sort_key)
      have sall: "sorted (map (key_period_size reg) (committed_periods v new1))" for v
        using s1 n1(4) by (cases "v = name") auto
      show ?thesis
      proof (cases err1)
        case (Some e)
        with True Inr c1 Cons.prems(1) entry have "calls' = calls1" "err = Some e" by auto
        with n1(1,4) sall entry show ?thesis
          by (intro exI[of _ new1]) auto
      next
        case None
        with True Inr c1 Cons.prems(1) entry
        have "finalize_variables reg ent entries calls1 = (calls', err)" by simp
        from Cons.IH[OF this d] obtain new where new: "calls' = calls1 @ new"
          "\<forall>v. sorted (map (key_period_size reg) (committed_periods v new)) \<and>
            (v \<notin> fst ` set entries \<longrightarrow> committed_periods v new = []) \<and>
            (err = None \<longrightarrow> get_holder reg ent v \<longrightarrow>
               (\<forall>buffer. dict_get entries v = Some buffer \<longrightarrow>
                  (\<exists>ps. parse_periods reg (map fst buffer) = Inr ps \<and>
                     committed_periods v new = sort_key (key_period_size reg) ps)))"
          by blast
        have nm: "committed_periods name new = []" using new(2) fresh by blast
        have full: "committed_periods name new1 = sort_key (key_period_size reg) ps"
          using n1(3,5) None by simp
        show ?thesis
        proof (intro exI[of _ "new1 @ new"] conjI allI)
          show "calls' = calls @ new1 @ new" using new(1) n1(1) by simp
        next
          fix v
          show "sorted (map (key_period_size reg) (committed_periods v (new1 @ new)))"
          proof (cases "v = name")
            case True with nm s1 show ?thesis by simp
          next
            case False with n1(4) new(2) show ?thesis by simp
          qed
        next
          fix v
          show "v \<notin> fst ` set (entry # entries) \<longrightarrow> committed_periods v (new1 @ new) = []"
            using n1(4) new(2) entry by auto
        next
          fix v
          show "err = None \<longrightarrow> get_holder reg ent v \<longrightarrow>
             (\<forall>buffer. dict_get (entry # entries) v = Some buffer \<longrightarrow>
                (\<exists>ps. parse_periods reg (map fst buffer) = Inr ps \<and>
                   committed_periods v (new1 @ new) = sort_key (key_period_size reg) ps))"
          proof (cases "v = name")
            case True
            with entry Inr full nm show ?thesis by auto
          next
            case False
            with entry n1(4) new(2) show ?thesis by auto
          qed
        qed
      qed
    qed
  qed
qed

text \<open>
  Claim C3. The input buffer being a dictionary (its variable names are distinct),
  \<^verbatim>\<open>finalize_variables_init\<close> calls \<^verbatim>\<open>set_input\<close> for each variable in ascending order of
  period size: the sizes of the periods committed for a variable, in call order, are
  sorted, whether the function returns or raises on the way. When it returns, the
  periods committed for a variable whose holder resolves are all its buffered periods,
  stably sorted by size; so of two buffered periods of different sizes the smaller is
  committed before the larger.
\<close>

theorem finalize_variables_init_order:
  assumes "distinct (map fst (input_buffer b))"
    and "finalize_variables_init reg b ent sim = (sim', calls, err)"
  shows "sorted (map (key_period_size reg) (committed_periods v calls)) \<and>
         (err = None \<longrightarrow> get_holder reg ent v \<longrightarrow>
            (\<forall>buffer. dict_get (input_buffer b) v = Some buffer \<longrightarrow>
               (\<exists>ps. parse_periods reg (map fst buffer) = Inr ps \<and>
                  committed_periods v calls = sort_key (key_period_size reg) ps)))"
proof -
  from assms(2) consider (early) "calls = []" "err \<noteq> None"
    | (loop) "finalize_variables reg ent (input_buffer b) [] = (calls, err)"
    by (auto simp: finalize_variables_init_def Let_def split: sum.splits prod.splits if_splits)
  then show ?thesis
  proof cases
    case early
    then show ?thesis by auto
  next
    case loop
    from finalize_variables_calls[OF loop assms(1)] show ?thesis by auto
  qed
qed

theorem finalize_variables_init_order_witness:
  "distinct (map fst (input_buffer example_buffered)) \<and>
   finalize_variables_init example_registry example_buffered example_persons example_sim =
     (example_sim\<lparr>se_count := Some 1, se_ids := Some [''Alicia'']\<rparr>,
      [(''salary'', ''2024-01'', [Fin 100]), (''salary'', ''2024'', [Fin 1200])], None) \<and>
   sorted (map (key_period_size example_registry)
     (committed_periods ''salary''
        [(''salary'', ''2024-01'', [Fin 100]), (''salary'', ''2024'', [Fin 1200])])) \<and>
   committed_periods ''salary''
        [(''salary'', ''2024-01'', [Fin (100::rat)]), (''salary'', ''2024'', [Fin 1200])] =
     [''2024-01'', ''2024'']"
proof -
  have d: "distinct (map fst (input_buffer example_buffered))"
    by (simp add: example_buffered_def)
  have run: "finalize_variables_init example_registry example_buffered example_persons
      example_sim =
     (example_sim\<lparr>se_count := Some 1, se_ids := Some [''Alicia'']\<rparr>,
      [(''salary'', ''2024-01'', [Fin 100]), (''salary'', ''2024'', [Fin 1200])], None)"
    by code_simp
  have c: "committed_periods ''salary''
        [(''salary'', ''2024-01'', [Fin (100::rat)]), (''salary'', ''2024'', [Fin 1200])] =
     [''2024-01'', ''2024'']"
    by (simp add: committed_periods_def)
  from finalize_variables_init_order[OF d run, of "''salary''"] d run c
  show ?thesis by blast
qed

section \<open>Parallel axes\<close>

lemma axis_write_update [simp]:
  "axis_write reg (b\<lparr>input_buffer := x\<rparr>) = axis_write reg b"
  "axis_write reg (b\<lparr>axes_entity_counts := y\<rparr>) = axis_write reg b"
  "axis_write reg (b\<lparr>axes_entity_ids := z\<rparr>) = axis_write reg b"
  "axis_write reg (b\<lparr>axes_roles := u\<rparr>) = axis_write reg b"
  "axis_write reg (b\<lparr>axes_memberships := w\<rparr>) = axis_write reg b"
  "axis_write reg (b\<lparr>axes := ax\<rparr>) = axis_write reg b"
  "axis_write reg (b\<lparr>variable_entities := ve\<rparr>) = axis_write reg b"
  by (simp_all add: axis_write_def axis_period_def fun_eq_iff split: option.splits)

lemma write_axis_apply:
  "write_axis reg e cnt step vals a b =
     map_sum id (\<lambda>buf. b\<lparr>input_buffer := buf\<rparr>)
       (apply_write (axis_write reg b e cnt step vals a) (input_buffer b))"
  by (cases "axis_array reg b e cnt a")
     (auto simp: write_axis_eq apply_write_def axis_write_def axis_array_def ebind_def
        split: sum.splits option.splits)

lemma write_axes_apply:
  "write_axes reg e cnt step vals as b =
     map_sum id (\<lambda>buf. b\<lparr>input_buffer := buf\<rparr>)
       (apply_writes (map (axis_write reg b e cnt step vals) as) (input_buffer b))"
proof (induction as arbitrary: b)
  case Nil
  show ?case by simp
next
  case (Cons a as)
  show ?case
  proof (cases "apply_write (axis_write reg b e cnt step vals a) (input_buffer b)")
    case (Inl e)
    then show ?thesis by (simp add: write_axis_apply)
  next
    case (Inr buf)
    then show ?thesis
      by (simp add: write_axis_apply Cons.IH[of "b\<lparr>input_buffer := buf\<rparr>"])
  qed
qed


lemma axis_write_count:
  "axis_write reg b e cnt step (\<lambda>a. map Fin (linspace (ax_min a) (ax_max a) n))
     (a\<lparr>ax_count := k\<rparr>) =
   axis_write reg b e cnt step (\<lambda>a. map Fin (linspace (ax_min a) (ax_max a) n)) a"
  by (simp add: axis_write_def axis_period_def axis_index_def)

lemma axis_writes_count:
  "list_all2 (\<lambda>x y. y = x\<lparr>ax_count := ax_count y\<rparr>) rest rest2 \<Longrightarrow>
   map (axis_write reg b e cnt step (\<lambda>a. map Fin (linspace (ax_min a) (ax_max a) n))) rest2 =
   map (axis_write reg b e cnt step (\<lambda>a. map Fin (linspace (ax_min a) (ax_max a) n))) rest"
proof (induction rule: list_all2_induct)
  case Nil
  show ?case by simp
next
  case (Cons x xs y ys)
  from Cons(1) have "axis_write reg b e cnt step
      (\<lambda>a. map Fin (linspace (ax_min a) (ax_max a) n)) y =
     axis_write reg b e cnt step (\<lambda>a. map Fin (linspace (ax_min a) (ax_max a) n)) x"
    using axis_write_count[where a = x and k = "ax_count y"] by simp
  with Cons(3) show ?case by simp
qed

lemma parallel_population_fields [simp]:
  "input_buffer (parallel_population b e n S ids) = input_buffer b"
  "entity_counts (parallel_population b e n S ids) = entity_counts b"
  "entity_ids (parallel_population b e n S ids) = entity_ids b"
  "variable_entities (parallel_population b e n S ids) = variable_entities b"
  "axes (parallel_population b e n S ids) = axes b"
  "default_period (parallel_population b e n S ids) = default_period b"
  "axes_entity_counts (parallel_population b e n S ids) =
     (axes_entity_counts b)(plural e \<mapsto> n * S)"
  "axis_write reg (parallel_population b e n S ids) = axis_write reg b"
  by (simp_all add: parallel_population_def Let_def)

lemma expand_parallel_eq:
  assumes "variable_entities b (ax_name first_axis) = Some e"
    and "get_count b (plural e) = Inr S"
    and "get_ids b (plural e) = Inr ids"
  shows "expand_parallel reg (first_axis # rest) b =
         map_sum id (\<lambda>buf. (parallel_population b e (ax_count first_axis) S ids)
                              \<lparr>input_buffer := buf\<rparr>)
           (apply_writes
              (map (axis_write reg b e (ax_count first_axis * S) S
                      (\<lambda>a. map Fin (linspace (ax_min a) (ax_max a) (ax_count first_axis))))
                 (first_axis # rest))
              (input_buffer b))"
proof -
  have ids: "get_ids (b\<lparr>axes_entity_counts :=
      (axes_entity_counts b)(plural e \<mapsto> ax_count first_axis * S)\<rparr>) (plural e) = Inr ids"
    using assms(3) by (simp add: get_ids_def split: option.splits)
  have "expand_parallel reg (first_axis # rest) b =
      write_axes reg e (ax_count first_axis * S) S
        (\<lambda>a. map Fin (linspace (ax_min a) (ax_max a) (ax_count first_axis)))
        (first_axis # rest) (parallel_population b e (ax_count first_axis) S ids)"
    unfolding expand_parallel_def parallel_population_def
    by (simp add: assms(1,2) ids Let_def del: write_axes.simps)
  then show ?thesis
    by (simp only: write_axes_apply parallel_population_fields)
qed

lemma get_count_reset:
  "get_count (b\<lparr>axes_entity_counts := Map.empty\<rparr>) n =
     (case entity_counts b n of None \<Rightarrow> Inl KeyError | Some c \<Rightarrow> Inr c)"
  by (simp add: get_count_def split: option.splits)

lemma get_ids_reset [simp]:
  "get_ids (b\<lparr>axes_entity_counts := x\<rparr>) n = get_ids b n"
  by (simp add: get_ids_def split: option.splits)

lemma expand_axes_parallel_eq:
  assumes "axes b = [first_axis # rest]"
    and "variable_entities b (ax_name first_axis) = Some e"
    and "entity_counts b (plural e) = Some S"
    and "get_ids b (plural e) = Inr ids"
  shows "expand_axes reg b =
         map_sum id (\<lambda>buf. (parallel_population (b\<lparr>axes_entity_counts := Map.empty\<rparr>) e
                               (ax_count first_axis) S ids)\<lparr>input_buffer := buf\<rparr>)
           (apply_writes
              (map (axis_write reg b e (ax_count first_axis * S) S
                      (\<lambda>a. map Fin (linspace (ax_min a) (ax_max a) (ax_count first_axis))))
                 (first_axis # rest))
              (input_buffer b))"
proof -
  let ?b0 = "b\<lparr>axes_entity_counts := Map.empty\<rparr>"
  have "expand_axes reg b = expand_parallel reg (first_axis # rest) ?b0"
    using assms(1) by (simp add: expand_axes_def Let_def)
  also have "\<dots> = map_sum id (\<lambda>buf. (parallel_population ?b0 e (ax_count first_axis) S ids)
                              \<lparr>input_buffer := buf\<rparr>)
           (apply_writes
              (map (axis_write reg ?b0 e (ax_count first_axis * S) S
                      (\<lambda>a. map Fin (linspace (ax_min a) (ax_max a) (ax_count first_axis))))
                 (first_axis # rest))
              (input_buffer ?b0))"
    by (rule expand_parallel_eq) (use assms in \<open>simp_all add: get_count_reset\<close>)
  finally show ?thesis by simp
qed

lemma expand_axes_parallel_fail:
  assumes "axes b = [first_axis # rest]"
    and "variable_entities b (ax_name first_axis) = None \<or>
         (\<exists>e. variable_entities b (ax_name first_axis) = Some e \<and>
              (entity_counts b (plural e) = None \<or> entity_ids b (plural e) = None))"
  shows "expand_axes reg b = Inl KeyError"
  using assms
  by (auto simp: expand_axes_def expand_parallel_def Let_def get_count_def get_ids_def
      split: option.splits)

lemma get_roles_update [simp]:
  "get_roles (b\<lparr>axes := ax\<rparr>) n = get_roles b n"
  "get_roles (b\<lparr>variable_entities := ve\<rparr>) n = get_roles b n"
  "get_roles (b\<lparr>axes_entity_counts := c\<rparr>) n = get_roles b n"
  "get_roles (b\<lparr>axes_entity_ids := i\<rparr>) n = get_roles b n"
  by (simp_all add: get_roles_def split: option.splits)

lemma get_memberships_update [simp]:
  "get_memberships (b\<lparr>axes := ax\<rparr>) n = get_memberships b n"
  "get_memberships (b\<lparr>variable_entities := ve\<rparr>) n = get_memberships b n"
  "get_memberships (b\<lparr>axes_entity_counts := c\<rparr>) n = get_memberships b n"
  "get_memberships (b\<lparr>axes_entity_ids := i\<rparr>) n = get_memberships b n"
  "get_memberships (b\<lparr>axes_roles := r\<rparr>) n = get_memberships b n"
  by (simp_all add: get_memberships_def split: option.splits)

lemma parallel_population_update:
  "parallel_population (b\<lparr>axes := ax, variable_entities := ve\<rparr>) e n S ids =
     (parallel_population b e n S ids)\<lparr>axes := ax, variable_entities := ve\<rparr>"
  by (simp add: parallel_population_def Let_def)

lemma get_ids_update [simp]:
  "get_ids (b\<lparr>axes := ax\<rparr>) n = get_ids b n"
  "get_ids (b\<lparr>variable_entities := ve\<rparr>) n = get_ids b n"
  "get_ids (b\<lparr>input_buffer := buf\<rparr>) n = get_ids b n"
  by (simp_all add: get_ids_def split: option.splits)

lemma get_ids_Inr: "entity_ids b n = Some i \<Longrightarrow> \<exists>ids. get_ids b n = Inr ids"
  by (simp add: get_ids_def)

section \<open>The population builder\<close>

subsection \<open>Dictionaries\<close>

lemma dict_get_pop [simp]:
  "dict_get (dict_pop d k) n = (if n = k then None else dict_get d n)"
  by (induction d) (auto simp: dict_pop_def)

lemma dict_get_mem: "dict_get d k = Some v \<Longrightarrow> (k, v) \<in> set d"
  by (induction d) (auto split: if_splits)

lemma dict_get_distinct:
  "distinct (map fst d) \<Longrightarrow> (k, v) \<in> set d \<Longrightarrow> dict_get d k = Some v"
  by (induction d) (auto simp: rev_image_eqI)

lemma dict_get_None: "dict_get d k = None \<longleftrightarrow> k \<notin> fst ` set d"
  by (induction d) (force split: if_splits)+

lemma keys_dict_set:
  "map fst (dict_set d k v) = (if k \<in> set (map fst d) then map fst d else map fst d @ [k])"
  by (induction d) force+

lemma distinct_dict_set: "distinct (map fst d) \<Longrightarrow> distinct (map fst (dict_set d k v))"
  by (simp add: keys_dict_set)

subsection \<open>The role lists of an instance\<close>

lemma transform_empty [simp]: "transform_to_strict_syntax (JList []) = JList []"
  by (simp add: transform_to_strict_syntax_def)

text \<open>The keys of \<open>roles_json\<close>: the role names in order of first occurrence.\<close>

lemma split_roles_keys:
  "map fst (snd (split_roles rs vj acc)) =
     fold (\<lambda>n ks. if n \<in> set ks then ks else ks @ [n]) (map role_name rs) (map fst acc)"
  by (induction rs arbitrary: vj acc) (simp_all add: keys_dict_set)

lemma split_roles_distinct:
  "distinct (map fst acc) \<Longrightarrow> distinct (map fst (snd (split_roles rs vj acc)))"
  by (induction rs arbitrary: vj acc) (simp_all add: distinct_dict_set)

text \<open>The value of a role name: the normalized field of the instance, or the empty list
  when two roles share the name.\<close>

lemma split_roles_get:
  "dict_get (snd (split_roles rs vj acc)) n =
     (if n \<in> role_name ` set rs
      then Some (if count_list (map role_name rs) n = 1
                 then transform_to_strict_syntax
                        (case dict_get vj n of None \<Rightarrow> JList [] | Some d \<Rightarrow> d)
                 else JList [])
      else dict_get acc n)"
proof (induction rs arbitrary: vj acc)
  case Nil
  show ?case by simp
next
  case (Cons r rs)
  let ?x = "transform_to_strict_syntax
              (case dict_get vj (role_name r) of None \<Rightarrow> JList [] | Some d \<Rightarrow> d)"
  have "dict_get (snd (split_roles (r # rs) vj acc)) n =
        dict_get (snd (split_roles rs (dict_pop vj (role_name r))
                         (dict_set acc (role_name r) ?x))) n"
    by simp
  also have "\<dots> =
     (if n \<in> role_name ` set rs
      then Some (if count_list (map role_name rs) n = 1
                 then transform_to_strict_syntax
                        (case dict_get (dict_pop vj (role_name r)) n of
                           None \<Rightarrow> JList [] | Some d \<Rightarrow> d)
                 else JList [])
      else dict_get (dict_set acc (role_name r) ?x) n)"
    by (rule Cons.IH)
  also have "\<dots> =
     (if n \<in> role_name ` set (r # rs)
      then Some (if count_list (map role_name (r # rs)) n = 1
                 then transform_to_strict_syntax
                        (case dict_get vj n of None \<Rightarrow> JList [] | Some d \<Rightarrow> d)
                 else JList [])
      else dict_get acc n)"
    by (auto simp: count_list_0_iff)
  finally show ?case .
qed

lemma fold_first_occurrence:
  assumes "\<And>n. n \<in> set ks \<Longrightarrow> n \<in> set ns \<Longrightarrow> g n = []"
    and "\<And>n. 2 \<le> count_list ns n \<Longrightarrow> g n = []"
  shows "concat (map g (fold (\<lambda>n ks. if n \<in> set ks then ks else ks @ [n]) ns ks)) =
         concat (map g ks) @ concat (map g ns)"
  using assms
proof (induction ns arbitrary: ks)
  case Nil
  show ?case by simp
next
  case (Cons n ns)
  show ?case
  proof (cases "n \<in> set ks")
    case True
    then have gn: "g n = []" using Cons.prems(1) by simp
    have "concat (map g (fold (\<lambda>n ks. if n \<in> set ks then ks else ks @ [n]) ns ks)) =
          concat (map g ks) @ concat (map g ns)"
    proof (rule Cons.IH)
      fix m assume "m \<in> set ks" "m \<in> set ns"
      then show "g m = []" using Cons.prems(1) by simp
    next
      fix m assume "2 \<le> count_list ns m"
      then show "g m = []" using Cons.prems(2)[of m] by simp
    qed
    with True gn show ?thesis by simp
  next
    case False
    have "concat (map g (fold (\<lambda>n ks. if n \<in> set ks then ks else ks @ [n]) ns (ks @ [n]))) =
          concat (map g (ks @ [n])) @ concat (map g ns)"
    proof (rule Cons.IH)
      fix m assume m: "m \<in> set (ks @ [n])" "m \<in> set ns"
      show "g m = []"
      proof (cases "m = n")
        case True
        with m(2) have "0 < count_list ns n" by (metis count_list_0_iff not_gr_zero)
        then have "2 \<le> count_list (n # ns) n" by simp
        with True show ?thesis using Cons.prems(2) by simp
      next
        case False
        with m show ?thesis using Cons.prems(1) by simp
      qed
    next
      fix m assume "2 \<le> count_list ns m"
      then show "g m = []" using Cons.prems(2)[of m] by simp
    qed
    with False show ?thesis by simp
  qed
qed

subsection \<open>Allocation of the persons of an instance\<close>

lemma check_persons_to_allocate_Inr:
  "check_persons_to_allocate pp ep pids person_id iid rid A index = Inr p \<Longrightarrow>
     person_id = JStr p \<and> p \<in> set pids \<and> p \<in> A"
  by (auto simp: check_persons_to_allocate_def check_type_string_def ebind_def
      split: json.splits if_splits)

lemma allocate_role_Inr:
  "allocate_role pp ep pids iid rid xs index A = Inr A' \<Longrightarrow>
     \<exists>ps. xs = map JStr ps \<and> distinct ps \<and> set ps \<subseteq> A \<and> set ps \<subseteq> set pids \<and>
          A' = A - set ps"
proof (induction xs arbitrary: index A)
  case Nil
  then show ?case by simp
next
  case (Cons x xs)
  from Cons.prems obtain p where
    p: "check_persons_to_allocate pp ep pids x iid rid A index = Inr p"
    and rest: "allocate_role pp ep pids iid rid xs (Suc index) (A - {p}) = Inr A'"
    by (auto simp: ebind_def split: sum.splits)
  from check_persons_to_allocate_Inr[OF p] have x: "x = JStr p" "p \<in> set pids" "p \<in> A"
    by auto
  from Cons.IH[OF rest] obtain ps where ps: "xs = map JStr ps" "distinct ps"
    "set ps \<subseteq> A - {p}" "set ps \<subseteq> set pids" "A' = A - {p} - set ps"
    by blast
  show ?case
    by (rule exI[of _ "p # ps"]) (use x ps in auto)
qed

lemma allocate_roles_Inr:
  "allocate_roles pp ep pids iid rj A = Inr A' \<Longrightarrow>
     (\<forall>kv\<in>set rj. \<exists>xs. snd kv = JList xs) \<and>
     (\<exists>ps. role_persons rj = map JStr ps \<and> distinct ps \<and> set ps \<subseteq> A \<and>
           set ps \<subseteq> set pids \<and> A' = A - set ps)"
proof (induction rj arbitrary: A)
  case Nil
  then show ?case by (simp add: role_persons_def)
next
  case (Cons kv rj)
  obtain role_id role_definition where kv: "kv = (role_id, role_definition)" by (cases kv)
  from Cons.prems kv obtain xs A1 where
    xs: "role_definition = JList xs"
    and a1: "allocate_role pp ep pids iid role_id xs 0 A = Inr A1"
    and rest: "allocate_roles pp ep pids iid rj A1 = Inr A'"
    by (auto simp: ebind_def check_type_list_def split: sum.splits json.splits)
  from allocate_role_Inr[OF a1] obtain ps1 where ps1: "xs = map JStr ps1" "distinct ps1"
    "set ps1 \<subseteq> A" "set ps1 \<subseteq> set pids" "A1 = A - set ps1"
    by blast
  from Cons.IH[OF rest] obtain ps2 where lists: "\<forall>kv\<in>set rj. \<exists>xs. snd kv = JList xs"
    and ps2: "role_persons rj = map JStr ps2" "distinct ps2" "set ps2 \<subseteq> A1"
      "set ps2 \<subseteq> set pids" "A' = A1 - set ps2"
    by blast
  have rp: "role_persons (kv # rj) = map JStr (ps1 @ ps2)"
    using kv xs ps1(1) ps2(1) by (simp add: role_persons_def json_list_def)
  have dist: "distinct (ps1 @ ps2)" using ps1 ps2 by auto
  have sub: "set (ps1 @ ps2) \<subseteq> A" "set (ps1 @ ps2) \<subseteq> set pids"
    "A' = A - set (ps1 @ ps2)"
    using ps1 ps2 by auto
  have all: "\<forall>kv\<in>set (kv # rj). \<exists>xs. snd kv = JList xs"
    using lists kv xs by auto
  from rp dist sub have "\<exists>ps. role_persons (kv # rj) = map JStr ps \<and> distinct ps \<and>
      set ps \<subseteq> A \<and> set ps \<subseteq> set pids \<and> A' = A - set ps"
    by blast
  with all show ?case by blast
qed

subsection \<open>The members yielded for an instance\<close>

lemma role_members_snd: "role_members r xs j = Inr ms \<Longrightarrow> map snd ms = xs"
  by (induction xs arbitrary: j ms) (auto simp: ebind_def split: if_splits sum.splits)

lemma iter_roles_snd:
  assumes "\<forall>kv\<in>set rj. \<exists>xs. snd kv = JList xs"
    and "iter_roles rs rj = Inr ms"
  shows "map snd ms =
     concat (map (\<lambda>n. case dict_get rj n of None \<Rightarrow> [] | Some v \<Rightarrow> json_list v)
               (map role_name rs))"
  using assms(2)
proof (induction rs arbitrary: ms)
  case Nil
  then show ?case by simp
next
  case (Cons r rs)
  show ?case
  proof (cases "dict_get rj (role_name r)")
    case None
    with Cons show ?thesis by simp
  next
    case (Some v)
    from dict_get_mem[OF Some] assms(1) obtain xs where v: "v = JList xs" by fastforce
    show ?thesis
    proof (cases "xs = []")
      case True
      with Some v Cons show ?thesis by (simp add: truthy_def json_list_def)
    next
      case False
      with Some v Cons.prems obtain ms1 ms2 where
        m1: "role_members r xs 0 = Inr ms1" and m2: "iter_roles rs rj = Inr ms2"
        and ms: "ms = ms1 @ ms2"
        by (auto simp: truthy_def ebind_def split: sum.splits)
      from role_members_snd[OF m1] Cons.IH[OF m2] ms Some v show ?thesis
        by (simp add: json_list_def)
    qed
  qed
qed

lemma role_persons_get:
  "distinct (map fst rj) \<Longrightarrow>
   role_persons rj =
     concat (map (\<lambda>n. case dict_get rj n of None \<Rightarrow> [] | Some v \<Rightarrow> json_list v) (map fst rj))"
proof -
  assume d: "distinct (map fst rj)"
  have "map (\<lambda>kv. json_list (snd kv)) rj =
        map (\<lambda>kv. case dict_get rj (fst kv) of None \<Rightarrow> [] | Some v \<Rightarrow> json_list v) rj"
  proof (rule map_cong[OF refl])
    fix kv assume "kv \<in> set rj"
    then have "dict_get rj (fst kv) = Some (snd kv)"
      using dict_get_distinct[OF d, of "fst kv" "snd kv"] by simp
    then show "json_list (snd kv) =
        (case dict_get rj (fst kv) of None \<Rightarrow> [] | Some v \<Rightarrow> json_list v)" by simp
  qed
  then show ?thesis by (simp only: role_persons_def map_map comp_def)
qed

text \<open>The persons yielded for an instance are the persons validated for it, in the same
  order.\<close>

lemma members_role_persons:
  assumes "\<forall>kv\<in>set (snd (split_roles rs obj [])). \<exists>xs. snd kv = JList xs"
    and "iter_roles rs (snd (split_roles rs obj [])) = Inr ms"
  shows "map snd ms = role_persons (snd (split_roles rs obj []))"
proof -
  let ?rj = "snd (split_roles rs obj [])"
  let ?g = "\<lambda>n. case dict_get ?rj n of None \<Rightarrow> [] | Some v \<Rightarrow> json_list v"
  have d: "distinct (map fst ?rj)" by (rule split_roles_distinct) simp
  have dup: "?g n = []" if "2 \<le> count_list (map role_name rs) n" for n
  proof -
    from that have "n \<in> role_name ` set rs"
      by (metis count_list_0_iff not_numeral_le_zero set_map)
    with that show ?thesis by (simp add: split_roles_get json_list_def)
  qed
  have "role_persons ?rj = concat (map ?g (map fst ?rj))"
    by (rule role_persons_get[OF d])
  also have "\<dots> = concat (map ?g
      (fold (\<lambda>n ks. if n \<in> set ks then ks else ks @ [n]) (map role_name rs) []))"
    by (simp add: split_roles_keys)
  also have "\<dots> = concat (map ?g []) @ concat (map ?g (map role_name rs))"
    by (rule fold_first_occurrence) (use dup in auto)
  finally show ?thesis using iter_roles_snd[OF assms] by simp
qed

subsection \<open>The arrays of a group kind\<close>

lemma list_index_Some: "list_index xs x = Some i \<Longrightarrow> i < length xs \<and> xs ! i = x"
  by (induction xs arbitrary: i) (auto split: if_splits)

lemma assign_members_Inr:
  assumes "assign_members pids e ms (M, R) = Inr (M', R')"
    and "map snd ms = map JStr ps" and "distinct ps" and "distinct pids"
    and "length M = length pids" and "length R = length pids"
  shows "length M' = length pids \<and> length R' = length pids \<and>
         (\<forall>m\<in>set ms. \<exists>i<length pids. snd m = JStr (pids ! i) \<and>
                          M' ! i = Some e \<and> R' ! i = Some (fst m)) \<and>
         (\<forall>i<length pids. pids ! i \<notin> set ps \<longrightarrow> M' ! i = M ! i \<and> R' ! i = R ! i)"
  using assms
proof (induction ms arbitrary: M R ps)
  case Nil
  then show ?case by simp
next
  case (Cons m ms)
  obtain r x where m: "m = (r, x)" by (cases m)
  from Cons.prems(2) m obtain p ps' where ps: "ps = p # ps'" "x = JStr p"
    "map snd ms = map JStr ps'"
    by (cases ps) auto
  from Cons.prems(1) m ps(2) obtain i where
    i: "list_index (map JStr pids) (JStr p) = Some i"
    and rest: "assign_members pids e ms (M[i := Some e], R[i := Some r]) = Inr (M', R')"
    by (auto split: option.splits)
  from list_index_Some[OF i] have il: "i < length pids" and ip: "pids ! i = p" by auto
  from Cons.prems(3) ps(1) have d': "distinct ps'" and pn: "p \<notin> set ps'" by auto
  from Cons.IH[OF rest ps(3) d' Cons.prems(4)] Cons.prems(5,6)
  have IH: "length M' = length pids" "length R' = length pids"
    "\<forall>m\<in>set ms. \<exists>i<length pids. snd m = JStr (pids ! i) \<and>
                          M' ! i = Some e \<and> R' ! i = Some (fst m)"
    "\<forall>j<length pids. pids ! j \<notin> set ps' \<longrightarrow>
        M' ! j = (M[i := Some e]) ! j \<and> R' ! j = (R[i := Some r]) ! j"
    by auto
  from IH(4) il ip pn Cons.prems(5,6)
  have here: "M' ! i = Some e \<and> R' ! i = Some r" by simp
  have frame: "\<forall>j<length pids. pids ! j \<notin> set ps \<longrightarrow> M' ! j = M ! j \<and> R' ! j = R ! j"
  proof (intro allI impI)
    fix j assume j: "j < length pids" "pids ! j \<notin> set ps"
    with ps(1) ip have "j \<noteq> i" "pids ! j \<notin> set ps'" by auto
    with IH(4) j(1) show "M' ! j = M ! j \<and> R' ! j = R ! j" by simp
  qed
  from here il ip ps(2) m
  have "\<exists>i<length pids. snd m = JStr (pids ! i) \<and> M' ! i = Some e \<and> R' ! i = Some (fst m)"
    by auto
  with IH(1-3) frame show ?case by simp
qed

lemma role_persons_referenced:
  "set (role_persons (snd (split_roles rs obj []))) \<subseteq> set (concat (map (role_list obj) rs))"
proof
  let ?rj = "snd (split_roles rs obj [])"
  fix x assume "x \<in> set (role_persons ?rj)"
  then obtain n v where nv: "(n, v) \<in> set ?rj" and x: "x \<in> set (json_list v)"
    by (auto simp: role_persons_def)
  have "distinct (map fst ?rj)" by (rule split_roles_distinct) simp
  from dict_get_distinct[OF this nv] have g: "dict_get ?rj n = Some v" .
  then have n: "n \<in> role_name ` set rs"
    by (simp add: split_roles_get split: if_splits)
  then obtain r where r: "r \<in> set rs" "n = role_name r" by auto
  from g n x have "x \<in> set (json_list (transform_to_strict_syntax
      (case dict_get obj n of None \<Rightarrow> JList [] | Some d \<Rightarrow> d)))"
    by (auto simp: split_roles_get json_list_def split: if_splits)
  with r show "x \<in> set (concat (map (role_list obj) rs))"
    by (auto simp: role_list_def)
qed

text \<open>One instance of the loop of \<^verbatim>\<open>add_group_entity\<close>.\<close>

lemma add_group_instance_Inr:
  assumes "add_group_instance reg pp pids ent ids inst (b, (M, R), A) = Inr (b', (M', R'), A')"
    and "distinct pids" and "length M = length pids" and "length R = length pids"
  shows "\<exists>ps e obj. snd inst = JDict obj \<and> list_index ids (fst inst) = Some e \<and>
           map snd (instance_members ent (snd inst)) = map JStr ps \<and>
           distinct ps \<and> set ps \<subseteq> A \<and> set ps \<subseteq> set pids \<and> A' = A - set ps \<and>
           JStr ` set ps \<subseteq> set (concat (map (role_list obj) (entity_roles ent))) \<and>
           length M' = length pids \<and> length R' = length pids \<and>
           (\<forall>m\<in>set (instance_members ent (snd inst)).
              \<exists>i<length pids. snd m = JStr (pids ! i) \<and>
                 M' ! i = Some e \<and> R' ! i = Some (fst m)) \<and>
           (\<forall>i<length pids. pids ! i \<notin> set ps \<longrightarrow> M' ! i = M ! i \<and> R' ! i = R ! i)"
proof -
  from assms(1) obtain obj where obj: "snd inst = JDict obj"
    by (auto simp: add_group_instance_def check_type_dict_def ebind_def
        split: json.splits sum.splits)
  let ?rj = "snd (split_roles (entity_roles ent) obj [])"
  from assms(1) obj obtain e ms where
    al: "allocate_roles pp (plural ent) pids (fst inst) ?rj A = Inr A'"
    and e: "list_index ids (fst inst) = Some e"
    and it: "iter_over_entity_members ent ?rj = Inr ms"
    and asg: "assign_members pids e ms (M, R) = Inr (M', R')"
    by (auto simp: add_group_instance_def check_type_dict_def ebind_def
        split: sum.splits prod.splits option.splits)
  from allocate_roles_Inr[OF al] obtain ps where
    lists: "\<forall>kv\<in>set ?rj. \<exists>xs. snd kv = JList xs"
    and ps: "role_persons ?rj = map JStr ps" "distinct ps" "set ps \<subseteq> A" "set ps \<subseteq> set pids"
      "A' = A - set ps"
    by blast
  from it have it': "iter_roles (entity_roles ent) ?rj = Inr ms"
    by (simp add: iter_over_entity_members_def)
  from members_role_persons[OF lists it'] ps(1) have sm: "map snd ms = map JStr ps" by simp
  have im: "instance_members ent (snd inst) = ms"
    using obj it by (simp add: instance_members_def)
  have ref: "JStr ` set ps \<subseteq> set (concat (map (role_list obj) (entity_roles ent)))"
    using role_persons_referenced[of "entity_roles ent" obj] ps(1) by (metis set_map)
  from assign_members_Inr[OF asg sm ps(2) assms(2,3,4)] obj e im sm ps(2-5) ref
  show ?thesis by blast
qed

lemma all_members_Cons:
  "all_members ent ids (inst # insts) =
     map (\<lambda>m. (list_index ids (fst inst), fst m, snd m)) (instance_members ent (snd inst)) @
     all_members ent ids insts"
  by (simp add: all_members_def)

lemma referenced_Cons:
  "set (referenced ent (JDict (inst # insts))) =
     set (case snd inst of JDict obj \<Rightarrow> concat (map (role_list obj) (entity_roles ent))
          | _ \<Rightarrow> []) \<union> set (referenced ent (JDict insts))"
  by (simp add: referenced_def)

text \<open>The loop over the instances.\<close>

lemma add_group_instances_Inr:
  assumes "add_group_instances reg pp pids ent ids insts (b, (M, R), A) = Inr (b', (M', R'), A')"
    and "distinct pids" and "length M = length pids" and "length R = length pids"
  shows "\<exists>ps. map (\<lambda>m. snd (snd m)) (all_members ent ids insts) = map JStr ps \<and>
           distinct ps \<and> set ps \<subseteq> A \<and> set ps \<subseteq> set pids \<and> A' = A - set ps \<and>
           JStr ` set ps \<subseteq> set (referenced ent (JDict insts)) \<and>
           length M' = length pids \<and> length R' = length pids \<and>
           (\<forall>m\<in>set (all_members ent ids insts).
              \<exists>i<length pids. \<exists>e. fst m = Some e \<and> snd (snd m) = JStr (pids ! i) \<and>
                 M' ! i = Some e \<and> R' ! i = Some (fst (snd m))) \<and>
           (\<forall>i<length pids. pids ! i \<notin> set ps \<longrightarrow> M' ! i = M ! i \<and> R' ! i = R ! i)"
  using assms
proof (induction insts arbitrary: b M R A)
  case Nil
  then show ?case by (simp add: all_members_def)
next
  case (Cons inst insts)
  from Cons.prems(1) obtain b1 M1 R1 A1 where
    one: "add_group_instance reg pp pids ent ids inst (b, (M, R), A) = Inr (b1, (M1, R1), A1)"
    and rest: "add_group_instances reg pp pids ent ids insts (b1, (M1, R1), A1) =
                 Inr (b', (M', R'), A')"
    by (auto simp: ebind_def split: sum.splits)
  from add_group_instance_Inr[OF one Cons.prems(2,3,4)] obtain ps1 e obj where
    f1: "snd inst = JDict obj" "list_index ids (fst inst) = Some e"
      "map snd (instance_members ent (snd inst)) = map JStr ps1"
      "distinct ps1" "set ps1 \<subseteq> A" "set ps1 \<subseteq> set pids" "A1 = A - set ps1"
      "JStr ` set ps1 \<subseteq> set (concat (map (role_list obj) (entity_roles ent)))"
      "length M1 = length pids" "length R1 = length pids"
      "\<forall>m\<in>set (instance_members ent (snd inst)).
              \<exists>i<length pids. snd m = JStr (pids ! i) \<and>
                 M1 ! i = Some e \<and> R1 ! i = Some (fst m)"
      "\<forall>i<length pids. pids ! i \<notin> set ps1 \<longrightarrow> M1 ! i = M ! i \<and> R1 ! i = R ! i"
    by blast
  from Cons.IH[OF rest Cons.prems(2) f1(9,10)] obtain ps2 where
    f2: "map (\<lambda>m. snd (snd m)) (all_members ent ids insts) = map JStr ps2"
      "distinct ps2" "set ps2 \<subseteq> A1" "set ps2 \<subseteq> set pids" "A' = A1 - set ps2"
      "JStr ` set ps2 \<subseteq> set (referenced ent (JDict insts))"
      "length M' = length pids" "length R' = length pids"
      "\<forall>m\<in>set (all_members ent ids insts).
              \<exists>i<length pids. \<exists>e. fst m = Some e \<and> snd (snd m) = JStr (pids ! i) \<and>
                 M' ! i = Some e \<and> R' ! i = Some (fst (snd m))"
      "\<forall>i<length pids. pids ! i \<notin> set ps2 \<longrightarrow> M' ! i = M1 ! i \<and> R' ! i = R1 ! i"
    by blast
  have disj: "set ps1 \<inter> set ps2 = {}" using f1(7) f2(3) by auto
  have c1: "map (\<lambda>m. snd (snd m)) (all_members ent ids (inst # insts)) = map JStr (ps1 @ ps2)"
    using f1(3) f2(1) by (simp add: all_members_Cons comp_def)
  have c2: "distinct (ps1 @ ps2)" using f1(4) f2(2) disj by simp
  have c3: "set (ps1 @ ps2) \<subseteq> A" "set (ps1 @ ps2) \<subseteq> set pids" "A' = A - set (ps1 @ ps2)"
    using f1(5,6,7) f2(3,4,5) by auto
  have c4: "JStr ` set (ps1 @ ps2) \<subseteq> set (referenced ent (JDict (inst # insts)))"
    using f1(1,8) f2(6) by (auto simp: referenced_Cons)
  have c5: "\<forall>m\<in>set (all_members ent ids (inst # insts)).
              \<exists>i<length pids. \<exists>e. fst m = Some e \<and> snd (snd m) = JStr (pids ! i) \<and>
                 M' ! i = Some e \<and> R' ! i = Some (fst (snd m))"
  proof
    fix m assume "m \<in> set (all_members ent ids (inst # insts))"
    then consider (here) m0 where "m0 \<in> set (instance_members ent (snd inst))"
        "m = (Some e, fst m0, snd m0)"
      | (later) "m \<in> set (all_members ent ids insts)"
      using f1(2) by (auto simp: all_members_Cons)
    then show "\<exists>i<length pids. \<exists>e. fst m = Some e \<and> snd (snd m) = JStr (pids ! i) \<and>
                 M' ! i = Some e \<and> R' ! i = Some (fst (snd m))"
    proof cases
      case here
      from f1(11) here(1) obtain i where i: "i < length pids" "snd m0 = JStr (pids ! i)"
        "M1 ! i = Some e" "R1 ! i = Some (fst m0)"
        by blast
      from here(1) f1(3) have "snd m0 \<in> JStr ` set ps1"
        by (metis image_eqI list.set_map snd_conv surjective_pairing set_map)
      with i(2) have "pids ! i \<in> set ps1" by auto
      with disj have "pids ! i \<notin> set ps2" by auto
      with f2(10) i(1) have "M' ! i = M1 ! i" "R' ! i = R1 ! i" by auto
      with i here(2) show ?thesis by auto
    next
      case later
      with f2(9) show ?thesis by blast
    qed
  qed
  have c6: "\<forall>i<length pids. pids ! i \<notin> set (ps1 @ ps2) \<longrightarrow> M' ! i = M ! i \<and> R' ! i = R ! i"
    using f1(12) f2(10) by auto
  from c1 c2 c3 c4 f2(7,8) c5 c6 show ?case by blast
qed

text \<open>The working set after the loop, whatever the person ids.\<close>

lemma add_group_instances_leftover:
  "add_group_instances reg pp pids ent ids insts (b, arrays, A) = Inr (b', arrays', A') \<Longrightarrow>
     \<exists>ps. A' = A - set ps \<and> JStr ` set ps \<subseteq> set (referenced ent (JDict insts))"
proof (induction insts arbitrary: b arrays A)
  case Nil
  then show ?case by (auto intro: exI[of _ "[]"])
next
  case (Cons inst insts)
  from Cons.prems obtain b1 arrays1 A1 where
    one: "add_group_instance reg pp pids ent ids inst (b, arrays, A) = Inr (b1, arrays1, A1)"
    and rest: "add_group_instances reg pp pids ent ids insts (b1, arrays1, A1) =
                 Inr (b', arrays', A')"
    by (auto simp: ebind_def split: sum.splits)
  from one obtain obj where obj: "snd inst = JDict obj"
    and al: "allocate_roles pp (plural ent) pids (fst inst)
               (snd (split_roles (entity_roles ent) obj [])) A = Inr A1"
    by (auto simp: add_group_instance_def check_type_dict_def ebind_def
        split: json.splits sum.splits prod.splits option.splits)
  from allocate_roles_Inr[OF al] obtain ps1 where
    ps1: "role_persons (snd (split_roles (entity_roles ent) obj [])) = map JStr ps1"
      "A1 = A - set ps1"
    by blast
  have r1: "JStr ` set ps1 \<subseteq> set (concat (map (role_list obj) (entity_roles ent)))"
    using role_persons_referenced[of "entity_roles ent" obj] ps1(1) by (metis set_map)
  from Cons.IH[OF rest] obtain ps2 where ps2: "A' = A1 - set ps2"
    "JStr ` set ps2 \<subseteq> set (referenced ent (JDict insts))"
    by blast
  show ?case
    by (rule exI[of _ "ps1 @ ps2"]) (use ps1(2) ps2 r1 obj in \<open>auto simp: referenced_Cons\<close>)
qed

subsection \<open>Every person once\<close>

text \<open>
  Claim C1. When \<^verbatim>\<open>add_group_entity\<close> returns for person ids that are distinct (they are
  the keys of the persons dictionary), the membership and role arrays it stores for the
  group kind have the length of the person list and are indexed by person position; the
  persons of the assignments made over all instances and roles of the kind are all
  distinct and are exactly the person ids, so every person is assigned once and none is
  omitted; and at the position of each person the arrays hold the instance index and the
  role of that assignment.
\<close>

theorem add_group_entity_memberships:
  assumes "add_group_entity reg pp pids ent instances_json b = Inr b'"
    and "distinct pids"
  shows "\<exists>instances ms rs.
           instances_json = JDict instances \<and>
           memberships b' (plural ent) = Some ms \<and> roles b' (plural ent) = Some rs \<and>
           length ms = length pids \<and> length rs = length pids \<and>
           distinct (map (\<lambda>m. snd (snd m)) (all_members ent (map fst instances) instances)) \<and>
           set (map (\<lambda>m. snd (snd m)) (all_members ent (map fst instances) instances)) =
             JStr ` set pids \<and>
           (\<forall>i<length pids. \<exists>e r.
              (Some e, r, JStr (pids ! i)) \<in> set (all_members ent (map fst instances) instances) \<and>
              ms ! i = Some e \<and> rs ! i = Some r)"
proof -
  from assms(1) obtain instances where inst: "instances_json = JDict instances"
    by (auto simp: add_group_entity_def check_type_dict_def ebind_def
        split: json.splits sum.splits)
  let ?AM = "all_members ent (map fst instances) instances"
  let ?M0 = "replicate (length pids) (None :: nat option)"
  let ?R0 = "replicate (length pids) (None :: role option)"
  from assms(1) inst obtain b1 M R where
    loop: "add_group_instances reg pp pids ent (map fst instances) instances
             (b\<lparr>entity_ids := (entity_ids b)(plural ent \<mapsto> map fst instances),
                 entity_counts := (entity_counts b)(plural ent \<mapsto> length instances)\<rparr>,
              (?M0, ?R0), set pids) = Inr (b1, (M, R), {})"
    and b': "b' = b1\<lparr>memberships := (memberships b1)(plural ent \<mapsto> M),
                     roles := (roles b1)(plural ent \<mapsto> R)\<rparr>"
    by (auto simp: add_group_entity_def check_type_dict_def ebind_def init_group_state_def
        split: sum.splits prod.splits if_splits)
  from add_group_instances_Inr[OF loop assms(2)] obtain ps where
    f: "map (\<lambda>m. snd (snd m)) ?AM = map JStr ps" "distinct ps" "set ps \<subseteq> set pids"
      "{} = set pids - set ps" "length M = length pids" "length R = length pids"
      "\<forall>m\<in>set ?AM. \<exists>i<length pids. \<exists>e. fst m = Some e \<and> snd (snd m) = JStr (pids ! i) \<and>
                 M ! i = Some e \<and> R ! i = Some (fst (snd m))"
    by auto
  from f(3,4) have sps: "set ps = set pids" by auto
  have d: "distinct (map (\<lambda>m. snd (snd m)) ?AM)"
    using f(1,2) by (simp add: distinct_map inj_on_def)
  have s: "set (map (\<lambda>m. snd (snd m)) ?AM) = JStr ` set pids"
    using f(1) sps by (metis set_map)
  have a: "\<forall>i<length pids. \<exists>e r. (Some e, r, JStr (pids ! i)) \<in> set ?AM \<and>
              M ! i = Some e \<and> R ! i = Some r"
  proof (intro allI impI)
    fix i assume i: "i < length pids"
    then have "JStr (pids ! i) \<in> set (map (\<lambda>m. snd (snd m)) ?AM)"
      using s by simp
    then obtain m where m: "m \<in> set ?AM" "snd (snd m) = JStr (pids ! i)" by auto
    from f(7) m(1) obtain j e where j: "j < length pids" "fst m = Some e"
      "snd (snd m) = JStr (pids ! j)" "M ! j = Some e" "R ! j = Some (fst (snd m))"
      by blast
    from j(3) m(2) have "pids ! i = pids ! j" by simp
    with assms(2) i j(1) have "i = j" by (simp add: nth_eq_iff_index_eq)
    moreover have "m = (Some e, fst (snd m), JStr (pids ! i))"
      using j(2) m(2) by (metis prod.collapse)
    ultimately show "\<exists>e r. (Some e, r, JStr (pids ! i)) \<in> set ?AM \<and>
              M ! i = Some e \<and> R ! i = Some r"
      using m(1) j(4,5) by metis
  qed
  from inst b' f(5,6) d s a show ?thesis by simp
qed

theorem add_group_entity_memberships_witness:
  "\<exists>b' ms. add_group_entity example_registry ''persons'' two_persons example_households
           complete_households example_builder = Inr b' \<and>
         distinct two_persons \<and>
         memberships b' ''households'' = Some ms \<and>
         length ms = length two_persons \<and>
         ms = [Some 0, Some 1] \<and>
         roles b' ''households'' =
           Some [Some (Role ''parent'' (Some ''parents'') (Some 2) []),
                 Some (Role ''parent'' (Some ''parents'') (Some 2) [])]"
proof -
  have "case add_group_entity example_registry ''persons'' two_persons example_households
           complete_households example_builder of
          Inl e \<Rightarrow> False
        | Inr b' \<Rightarrow> memberships b' ''households'' = Some [Some 0, Some 1] \<and>
            roles b' ''households'' =
              Some [Some (Role ''parent'' (Some ''parents'') (Some 2) []),
                    Some (Role ''parent'' (Some ''parents'') (Some 2) [])]"
    by code_simp
  then obtain b' where run: "add_group_entity example_registry ''persons'' two_persons
      example_households complete_households example_builder = Inr b'"
    and arrays: "memberships b' ''households'' = Some [Some 0, Some 1]"
      "roles b' ''households'' =
         Some [Some (Role ''parent'' (Some ''parents'') (Some 2) []),
               Some (Role ''parent'' (Some ''parents'') (Some 2) [])]"
    by (auto split: sum.splits)
  have d: "distinct two_persons" by (simp add: two_persons_def)
  from add_group_entity_memberships[OF run d] obtain instances ms rs where
    ms: "memberships b' (plural example_households) = Some ms"
      "length ms = length two_persons"
    by (elim exE conjE) (rule that; assumption)
  from ms(1) arrays(1) have eq: "ms = [Some 0, Some 1]"
    by (simp add: example_households_def)
  show ?thesis
    by (intro exI[of _ b'] exI[of _ ms] conjI run d ms(2) eq arrays(2))
       (simp add: eq arrays(1))
qed

subsection \<open>A person left out\<close>

text \<open>
  Claim C7, as amended. When a person id of the population is referenced by no role list
  of any instance of a group kind, \<^verbatim>\<open>add_group_entity\<close> never returns: it raises. Unless an
  earlier failure ends the loop over the instances, the error raised is the structured
  input error whose path is the plural name of the kind and whose message lists the ids
  left unallocated, that person among them.
\<close>

theorem add_group_entity_unallocated:
  assumes "p \<in> set pids" and "JStr p \<notin> set (referenced ent instances_json)"
  shows "(\<exists>err. add_group_entity reg pp pids ent instances_json b = Inl err) \<and>
         (\<forall>instances st.
            instances_json = JDict instances \<longrightarrow>
            add_group_instances reg pp pids ent (map fst instances) instances
              (init_group_state pids ent instances b) = Inr st \<longrightarrow>
              p \<in> snd (snd st) \<and>
              add_group_entity reg pp pids ent instances_json b =
                Inl (SituationParsingError [plural ent]
                       (Unallocated (snd (snd st)) pp (key ent)) None))"
proof -
  have main: "p \<in> snd (snd st) \<and>
      add_group_entity reg pp pids ent instances_json b =
        Inl (SituationParsingError [plural ent] (Unallocated (snd (snd st)) pp (key ent)) None)"
    if inst: "instances_json = JDict instances"
      and loop: "add_group_instances reg pp pids ent (map fst instances) instances
              (init_group_state pids ent instances b) = Inr st"
    for instances st
  proof -
    obtain b1 arrays A where st: "st = (b1, arrays, A)" by (cases st)
    from loop st have "add_group_instances reg pp pids ent (map fst instances) instances
        (b\<lparr>entity_ids := (entity_ids b)(plural ent \<mapsto> map fst instances),
           entity_counts := (entity_counts b)(plural ent \<mapsto> length instances)\<rparr>,
         (replicate (length pids) None, replicate (length pids) None), set pids) =
        Inr (b1, arrays, A)"
      by (simp add: init_group_state_def)
    from add_group_instances_leftover[OF this] obtain ps where
      ps: "A = set pids - set ps" "JStr ` set ps \<subseteq> set (referenced ent (JDict instances))"
      by blast
    from ps(2) assms(2) inst have "p \<notin> set ps" by auto
    with ps(1) assms(1) have pA: "p \<in> A" by simp
    then have "A \<noteq> {}" by auto
    with loop st inst pA show ?thesis
      by (simp add: add_group_entity_def check_type_dict_def)
  qed
  have "\<exists>err. add_group_entity reg pp pids ent instances_json b = Inl err"
  proof (cases instances_json)
    case (JDict instances)
    show ?thesis
    proof (cases "add_group_instances reg pp pids ent (map fst instances) instances
              (init_group_state pids ent instances b)")
      case (Inl e)
      with JDict show ?thesis by (simp add: add_group_entity_def check_type_dict_def)
    next
      case (Inr st)
      from main[OF JDict Inr] show ?thesis by blast
    qed
  qed (simp_all add: add_group_entity_def check_type_dict_def)
  with main show ?thesis by blast
qed

theorem add_group_entity_unallocated_witness:
  "''Javier'' \<in> set two_persons \<and>
   JStr ''Javier'' \<notin> set (referenced example_households incomplete_households) \<and>
   add_group_entity example_registry ''persons'' two_persons example_households
     incomplete_households example_builder =
     Inl (SituationParsingError [''households'']
            (Unallocated {''Javier''} ''persons'' ''household'') None)"
proof -
  have h1: "''Javier'' \<in> set two_persons" by (simp add: two_persons_def)
  have h2: "JStr ''Javier'' \<notin> set (referenced example_households incomplete_households)"
    by code_simp
  have h3: "incomplete_households =
              JDict [(''h1'', JDict [(''parents'', JList [JStr ''Alicia''])])]"
    by (simp add: incomplete_households_def)
  have "case add_group_instances example_registry ''persons'' two_persons example_households
          (map fst [(''h1'', JDict [(''parents'', JList [JStr ''Alicia''])])])
          [(''h1'', JDict [(''parents'', JList [JStr ''Alicia''])])]
          (init_group_state two_persons example_households
             [(''h1'', JDict [(''parents'', JList [JStr ''Alicia''])])] example_builder) of
          Inl e \<Rightarrow> False
        | Inr st \<Rightarrow> snd (snd st) = {''Javier''}"
    by code_simp
  then obtain st where
    loop: "add_group_instances example_registry ''persons'' two_persons example_households
          (map fst [(''h1'', JDict [(''parents'', JList [JStr ''Alicia''])])])
          [(''h1'', JDict [(''parents'', JList [JStr ''Alicia''])])]
          (init_group_state two_persons example_households
             [(''h1'', JDict [(''parents'', JList [JStr ''Alicia''])])] example_builder) = Inr st"
    and left: "snd (snd st) = {''Javier''}"
    by (auto split: sum.splits)
  note unalloc = add_group_entity_unallocated[OF h1 h2, of example_registry "''persons''"
      example_builder, THEN conjunct2, rule_format, OF h3 loop, THEN conjunct2]
  from unalloc left
  have "add_group_entity example_registry ''persons'' two_persons example_households
     incomplete_households example_builder =
     Inl (SituationParsingError [plural example_households]
            (Unallocated {''Javier''} ''persons'' (key example_households)) None)"
    by simp
  with h1 h2 show ?thesis by (simp add: example_households_def)
qed

text \<open>
  Claim C7 as stated fails when another validation fails first: with Javier left out and
  Alicia named twice, the error raised is the one of the repeated person, whose message
  lists no unallocated id.
\<close>

theorem add_group_entity_other_error:
  "add_group_entity example_registry ''persons'' two_persons example_households
     repeating_households example_builder =
     Inl (SituationParsingError [''households'', ''h1'', ''parents'']
            (DeclaredTwice ''Alicia'' ''households'') None) \<and>
   ''Javier'' \<in> set two_persons \<and>
   JStr ''Javier'' \<notin> set (referenced example_households repeating_households)"
proof -
  have "case add_group_entity example_registry ''persons'' two_persons example_households
     repeating_households example_builder of
       Inl e \<Rightarrow> e = SituationParsingError [''households'', ''h1'', ''parents'']
            (DeclaredTwice ''Alicia'' ''households'') None
     | Inr b \<Rightarrow> False"
    by code_simp
  then have "add_group_entity example_registry ''persons'' two_persons example_households
     repeating_households example_builder =
     Inl (SituationParsingError [''households'', ''h1'', ''parents'']
            (DeclaredTwice ''Alicia'' ''households'') None)"
    by (simp split: sum.splits)
  moreover have "''Javier'' \<in> set two_persons" by (simp add: two_persons_def)
  moreover have "JStr ''Javier'' \<notin> set (referenced example_households repeating_households)"
    by code_simp
  ultimately show ?thesis by simp
qed

end
